theory Spec2Isabelle
  imports Complex_Main
begin

section \<open>Gastro-Kalkulation: the cost rollup of \<open>gastro_calc.py\<close>\<close>

text \<open>
  The development embeds the three core calculation functions and the class
  \<open>GastroCalculator\<close> of \<open>src/gastro_calc.py\<close>.

  Conventions of the embedding:
  \<^item> Python \<open>float\<close> values are idealised as \<open>real\<close> numbers: every arithmetic
    operation is exact, there is no overflow, underflow, infinity or NaN.
  \<^item> Python \<open>int\<close> values (row identifiers, the depth counter) are \<open>int\<close>.
  \<^item> An SQLite table with an integer primary key is a map from the key to the row;
    \<open>fetchone()\<close> returns \<open>None\<close> where the map does. A column declared
    \<open>NOT NULL\<close> has the plain type, a nullable column an \<open>option\<close> type.
  \<^item> A raised exception is the \<open>Inl\<close> of a sum type. A method returns its result
    together with the object as it is after the call, also when it raises, so that
    state changes made before the exception stay visible.
\<close>

subsection \<open>Rows of the five tables\<close>

record ingredient_row =
  ing_name :: string
  ing_unit :: string
  ing_price_per_unit :: real

record packaging_row =
  pkg_name :: string
  pkg_size_l :: real
  pkg_price_jar :: real
  pkg_price_lid :: real
  pkg_price_label :: real

record recipe_row =
  rcp_name :: string
  rcp_batch_size_l :: real
  rcp_energy_cost_chf :: real
  rcp_yield_pct :: real
  rcp_level :: "int option"

record item_row =
  item_ingredient_id :: "int option"
  item_sub_recipe_id :: "int option"
  item_amount :: real

record product_row =
  prd_recipe_id :: int
  prd_packaging_id :: int
  prd_markup_factor :: real

text \<open>
  The database behind \<open>self.conn\<close>. \<open>recipe_items\<close> gives, for a recipe
  identifier, the rows of \<open>SELECT * FROM recipe_items WHERE recipe_id = ?\<close> in the
  order \<open>fetchall()\<close> returns them.
\<close>

record database =
  ingredients :: "int \<rightharpoonup> ingredient_row"
  packaging_types :: "int \<rightharpoonup> packaging_row"
  recipes :: "int \<rightharpoonup> recipe_row"
  recipe_items :: "int \<Rightarrow> item_row list"
  products :: "int \<rightharpoonup> product_row"

subsection \<open>Results\<close>

text \<open>The entries of \<open>details['ingredients']\<close> and \<open>details['sub_recipes']\<close>.\<close>

record ingredient_line =
  il_name :: string
  il_amount :: real
  il_unit :: string
  il_price_per_unit :: real
  il_cost :: real

record sub_recipe_line =
  sl_recipe_id :: int
  sl_name :: string
  sl_amount_l :: real
  sl_cost_per_liter :: real
  sl_cost :: real

text \<open>The dictionary \<open>details\<close> as it is when \<open>calculate_recipe_cost\<close> returns it.\<close>

record recipe_details =
  d_name :: string
  d_batch_size :: real
  d_yield_pct :: real
  d_level :: "int option"
  d_ingredients :: "ingredient_line list"
  d_sub_recipes :: "sub_recipe_line list"
  d_energy_cost :: real
  d_total_material_cost :: real
  d_total_cost :: real
  d_net_output_l :: real
  d_cost_per_liter :: real

text \<open>The dictionary returned by \<open>calculate_product\<close>.\<close>

record product_result =
  p_product_id :: int
  p_recipe_name :: string
  p_packaging_name :: string
  p_size_l :: real
  p_recipe_cost_per_liter :: real
  p_packaging_cost :: real
  p_cost_per_unit :: real
  p_markup_factor :: real
  p_target_price :: real
  p_brutto_margin_pct :: real
  p_recipe_details :: recipe_details

subsection \<open>Exceptions\<close>

text \<open>
  \<^item> \<open>RecursionError r\<close>: \<open>RecursionError("Max Verschachtelungstiefe ... bei Recipe r")\<close>;
  \<^item> \<open>RecipeNotFound r\<close>: \<open>ValueError("Recipe r nicht gefunden")\<close>;
  \<^item> \<open>ProductNotFound p\<close>: \<open>ValueError("Product p nicht gefunden")\<close>;
  \<^item> \<open>TypeError\<close>: subscripting the \<open>None\<close> that \<open>fetchone()\<close> returned;
  \<^item> \<open>ZeroDivisionError\<close>: float division by zero.
\<close>

datatype error =
    RecursionError int
  | RecipeNotFound int
  | ProductNotFound int
  | TypeError
  | ZeroDivisionError

subsection \<open>Core calculation functions\<close>

definition calc_cost_per_liter :: "real \<Rightarrow> real \<Rightarrow> real \<Rightarrow> real \<Rightarrow> real" where
  "calc_cost_per_liter ingredients_cost energy_cost batch_size_l yield_pct =
     (if batch_size_l \<le> 0 \<or> yield_pct \<le> 0 then 0
      else let net_output = batch_size_l * (yield_pct / 100)
           in (ingredients_cost + energy_cost) / net_output)"

definition calc_cost_per_unit :: "real \<Rightarrow> real \<Rightarrow> real \<Rightarrow> real \<Rightarrow> real \<Rightarrow> real" where
  "calc_cost_per_unit cost_per_liter size_l price_jar price_lid price_label =
     (cost_per_liter * size_l) + price_jar + price_lid + price_label"

text \<open>
  Python 3's one-argument \<open>round\<close>: the nearest integer, a tie going to the even
  neighbour.
\<close>

definition py_round :: "real \<Rightarrow> int" where
  "py_round x =
     (let f = \<lfloor>x\<rfloor>; r = x - of_int f
      in if r < 1 / 2 then f
         else if 1 / 2 < r then f + 1
         else if even f then f else f + 1)"

definition calc_target_price :: "real \<Rightarrow> real \<Rightarrow> real" where
  "calc_target_price cost_per_unit markup_factor =
     (let base = cost_per_unit * markup_factor
      in of_int (py_round (base * 20)) / 20)"

subsection \<open>The calculator object\<close>

text \<open>
  The statements passed to \<open>cursor.execute\<close>, with their parameter. All of them are
  \<open>SELECT\<close>s by primary key (or, for the items, by \<open>recipe_id\<close>).
\<close>

datatype query =
    SelectRecipe int
  | SelectRecipeItems int
  | SelectIngredient int
  | SelectProduct int
  | SelectPackaging int

text \<open>
  \<open>conn\<close> and \<open>recipe_cache\<close> are the two attributes of the object. \<open>executed\<close>
  is an observation added by the model: the statements executed on the connection so
  far, oldest first. No function reads it.
\<close>

record gastro_calculator =
  conn :: database
  recipe_cache :: "int \<rightharpoonup> (real \<times> recipe_details)"
  executed :: "query list"

text \<open>\<open>GastroCalculator.__init__\<close>: a connection and an empty cache.\<close>

definition init_calculator :: "database \<Rightarrow> gastro_calculator" where
  "init_calculator db = \<lparr>conn = db, recipe_cache = Map.empty, executed = []\<rparr>"

definition execute :: "query \<Rightarrow> gastro_calculator \<Rightarrow> gastro_calculator" where
  "execute q self = self\<lparr>executed := executed self @ [q]\<rparr>"

text \<open>
  The test \<open>if item['ingredient_id']:\<close> (and the one on \<open>sub_recipe_id\<close>) is Python
  truthiness of an optional integer: \<open>None\<close> and \<open>0\<close> are false. \<open>truthy_id\<close>
  gives the identifier when the test passes.
\<close>

definition truthy_id :: "int option \<Rightarrow> int option" where
  "truthy_id v = (case v of None \<Rightarrow> None | Some i \<Rightarrow> if i = 0 then None else Some i)"

type_synonym recipe_result = "real \<times> recipe_details"
type_synonym loop_state = "real \<times> ingredient_line list \<times> sub_recipe_line list"

text \<open>
  The loop \<open>for item in items\<close> of \<open>calculate_recipe_cost\<close>. Its state is
  \<open>total_material_cost\<close> with the two lists of \<open>details\<close> the body appends to.
  \<open>resolve\<close> stands for the recursive call
  \<open>self.calculate_recipe_cost(item['sub_recipe_id'], depth + 1)\<close>. An exception leaves
  the loop at once.
\<close>

fun process_items ::
  "(gastro_calculator \<Rightarrow> int \<Rightarrow> (error + recipe_result) \<times> gastro_calculator) \<Rightarrow>
   item_row list \<Rightarrow> loop_state \<Rightarrow> gastro_calculator \<Rightarrow>
   (error + loop_state) \<times> gastro_calculator" where
  "process_items resolve [] acc self = (Inr acc, self)"
| "process_items resolve (item # items) (total_material_cost, ings, subs) self =
     (let amount = item_amount item in
      case truthy_id (item_ingredient_id item) of
        Some ingredient_id \<Rightarrow>
          (let self1 = execute (SelectIngredient ingredient_id) self in
           case ingredients (conn self1) ingredient_id of
             None \<Rightarrow> (Inl TypeError, self1)
           | Some ing \<Rightarrow>
               (let cost = amount * ing_price_per_unit ing in
                process_items resolve items
                  (total_material_cost + cost,
                   ings @ [\<lparr>il_name = ing_name ing, il_amount = amount,
                             il_unit = ing_unit ing,
                             il_price_per_unit = ing_price_per_unit ing,
                             il_cost = cost\<rparr>],
                   subs) self1))
      | None \<Rightarrow>
          (case truthy_id (item_sub_recipe_id item) of
             Some sub_recipe_id \<Rightarrow>
               (case resolve self sub_recipe_id of
                  (Inl e, self1) \<Rightarrow> (Inl e, self1)
                | (Inr (sub_cost_per_liter, sub_details), self1) \<Rightarrow>
                    (let cost = amount * sub_cost_per_liter in
                     process_items resolve items
                       (total_material_cost + cost,
                        ings,
                        subs @ [\<lparr>sl_recipe_id = sub_recipe_id,
                                  sl_name = d_name sub_details,
                                  sl_amount_l = amount,
                                  sl_cost_per_liter = sub_cost_per_liter,
                                  sl_cost = cost\<rparr>]) self1))
           | None \<Rightarrow> process_items resolve items (total_material_cost, ings, subs) self))"

text \<open>
  \<open>GastroCalculator.calculate_recipe_cost\<close>. The depth guard comes first, then the
  cache, then the two queries, the loop, and the store into the cache.
\<close>

function calculate_recipe_cost ::
  "gastro_calculator \<Rightarrow> int \<Rightarrow> int \<Rightarrow> (error + recipe_result) \<times> gastro_calculator" where
  "calculate_recipe_cost self recipe_id depth =
     (if depth > 3 then (Inl (RecursionError recipe_id), self)
      else case recipe_cache self recipe_id of
        Some cached \<Rightarrow> (Inr cached, self)
      | None \<Rightarrow>
          (let self1 = execute (SelectRecipe recipe_id) self in
           case recipes (conn self1) recipe_id of
             None \<Rightarrow> (Inl (RecipeNotFound recipe_id), self1)
           | Some recipe \<Rightarrow>
               (let self2 = execute (SelectRecipeItems recipe_id) self1;
                    items = recipe_items (conn self2) recipe_id
                in case process_items (\<lambda>s sub. calculate_recipe_cost s sub (depth + 1))
                          items (0, [], []) self2 of
                     (Inl e, self3) \<Rightarrow> (Inl e, self3)
                   | (Inr (total_material_cost, ings, subs), self3) \<Rightarrow>
                       (let energy_cost = rcp_energy_cost_chf recipe;
                            total_cost = total_material_cost + energy_cost;
                            cost_per_liter =
                              calc_cost_per_liter total_material_cost energy_cost
                                (rcp_batch_size_l recipe) (rcp_yield_pct recipe);
                            details =
                              \<lparr>d_name = rcp_name recipe,
                               d_batch_size = rcp_batch_size_l recipe,
                               d_yield_pct = rcp_yield_pct recipe,
                               d_level = rcp_level recipe,
                               d_ingredients = ings,
                               d_sub_recipes = subs,
                               d_energy_cost = energy_cost,
                               d_total_material_cost = total_material_cost,
                               d_total_cost = total_cost,
                               d_net_output_l =
                                 rcp_batch_size_l recipe * (rcp_yield_pct recipe / 100),
                               d_cost_per_liter = cost_per_liter\<rparr>
                        in (Inr (cost_per_liter, details),
                            self3\<lparr>recipe_cache :=
                              (recipe_cache self3)(recipe_id \<mapsto> (cost_per_liter, details))\<rparr>)))))"
  by pat_completeness auto
termination
  by (relation "measure (\<lambda>(self, recipe_id, depth). nat (4 - depth))") auto

declare calculate_recipe_cost.simps [simp del]

text \<open>\<open>GastroCalculator.calculate_product\<close>.\<close>

definition calculate_product ::
  "gastro_calculator \<Rightarrow> int \<Rightarrow> (error + product_result) \<times> gastro_calculator" where
  "calculate_product self product_id =
     (let self1 = execute (SelectProduct product_id) self in
      case products (conn self1) product_id of
        None \<Rightarrow> (Inl (ProductNotFound product_id), self1)
      | Some product \<Rightarrow>
          (case calculate_recipe_cost self1 (prd_recipe_id product) 0 of
             (Inl e, self2) \<Rightarrow> (Inl e, self2)
           | (Inr (cost_per_liter, recipe_details), self2) \<Rightarrow>
               (let self3 = execute (SelectPackaging (prd_packaging_id product)) self2 in
                case packaging_types (conn self3) (prd_packaging_id product) of
                  None \<Rightarrow> (Inl TypeError, self3)
                | Some packaging \<Rightarrow>
                    (let cost_per_unit =
                           calc_cost_per_unit cost_per_liter (pkg_size_l packaging)
                             (pkg_price_jar packaging) (pkg_price_lid packaging)
                             (pkg_price_label packaging);
                         target_price =
                           calc_target_price cost_per_unit (prd_markup_factor product)
                     in if target_price = 0 then (Inl ZeroDivisionError, self3)
                        else
                          (let brutto_margin_pct =
                                 ((target_price - cost_per_unit) / target_price) * 100
                           in (Inr \<lparr>p_product_id = product_id,
                                    p_recipe_name = d_name recipe_details,
                                    p_packaging_name = pkg_name packaging,
                                    p_size_l = pkg_size_l packaging,
                                    p_recipe_cost_per_liter = cost_per_liter,
                                    p_packaging_cost =
                                      pkg_price_jar packaging + pkg_price_lid packaging
                                        + pkg_price_label packaging,
                                    p_cost_per_unit = cost_per_unit,
                                    p_markup_factor = prd_markup_factor product,
                                    p_target_price = target_price,
                                    p_brutto_margin_pct = brutto_margin_pct,
                                    p_recipe_details = recipe_details\<rparr>,
                               self3))))))"


subsection \<open>The life of a calculator\<close>

text \<open>
  A calculator object is made by \<open>__init__\<close> and then only used through its two
  methods; the dashboard, for one, calls \<open>calculate_product\<close> for every product on
  one object and catches what a call raises. \<open>perform\<close> makes one such call and
  tells whether it returned; \<open>perform_all\<close> makes a list of calls in turn and tells
  whether all of them returned; \<open>after_calls db calls\<close> is the object after these
  calls on a fresh calculator for \<open>db\<close>.
\<close>

datatype call = CalculateRecipeCost int int | CalculateProduct int

fun perform :: "call \<Rightarrow> gastro_calculator \<Rightarrow> bool \<times> gastro_calculator" where
  "perform (CalculateRecipeCost recipe_id depth) self =
     (case calculate_recipe_cost self recipe_id depth of (res, self') \<Rightarrow> (\<not> isl res, self'))"
| "perform (CalculateProduct product_id) self =
     (case calculate_product self product_id of (res, self') \<Rightarrow> (\<not> isl res, self'))"

fun perform_all :: "gastro_calculator \<Rightarrow> call list \<Rightarrow> bool \<times> gastro_calculator" where
  "perform_all self [] = (True, self)"
| "perform_all self (c # cs) =
     (case perform c self of (returned, self1) \<Rightarrow>
        (case perform_all self1 cs of (all_returned, self') \<Rightarrow>
           (returned \<and> all_returned, self')))"

definition after_calls :: "database \<Rightarrow> call list \<Rightarrow> gastro_calculator" where
  "after_calls db calls = snd (perform_all (init_calculator db) calls)"


text \<open>
  Lines 115 to 129 of the method as a function of the recipe row and the final loop
  state: the returned pair, which is also the value stored into the cache.
\<close>

definition recipe_result_of :: "recipe_row \<Rightarrow> loop_state \<Rightarrow> recipe_result" where
  "recipe_result_of recipe acc =
     (case acc of (total_material_cost, ings, subs) \<Rightarrow>
       (let energy_cost = rcp_energy_cost_chf recipe;
            total_cost = total_material_cost + energy_cost;
            cost_per_liter =
              calc_cost_per_liter total_material_cost energy_cost
                (rcp_batch_size_l recipe) (rcp_yield_pct recipe)
        in (cost_per_liter,
            \<lparr>d_name = rcp_name recipe,
             d_batch_size = rcp_batch_size_l recipe,
             d_yield_pct = rcp_yield_pct recipe,
             d_level = rcp_level recipe,
             d_ingredients = ings,
             d_sub_recipes = subs,
             d_energy_cost = energy_cost,
             d_total_material_cost = total_material_cost,
             d_total_cost = total_cost,
             d_net_output_l = rcp_batch_size_l recipe * (rcp_yield_pct recipe / 100),
             d_cost_per_liter = cost_per_liter\<rparr>)))"

subsection \<open>Concrete databases\<close>

text \<open>
  The rows \<open>setup_database\<close> inserts (names in ASCII): eight ingredients, four
  packaging types, the recipes Grundfond (1), Demi-Glace (2, uses 1) and Sauce
  Perigueux (3, uses 2), and four products.
\<close>

definition seed_db :: database where
  "seed_db =
     \<lparr>ingredients = map_of
        [(1, \<lparr>ing_name = ''Kalbsknochen'', ing_unit = ''kg'', ing_price_per_unit = 150 / 100\<rparr>),
         (2, \<lparr>ing_name = ''Mirepoix-Gemuese'', ing_unit = ''kg'', ing_price_per_unit = 333 / 100\<rparr>),
         (3, \<lparr>ing_name = ''Weisswein'', ing_unit = ''l'', ing_price_per_unit = 7\<rparr>),
         (4, \<lparr>ing_name = ''Tomatenpueree'', ing_unit = ''kg'', ing_price_per_unit = 450 / 100\<rparr>),
         (5, \<lparr>ing_name = ''Cognac'', ing_unit = ''l'', ing_price_per_unit = 45\<rparr>),
         (6, \<lparr>ing_name = ''Schalotten'', ing_unit = ''kg'', ing_price_per_unit = 8\<rparr>),
         (7, \<lparr>ing_name = ''Morcheln getrocknet'', ing_unit = ''kg'', ing_price_per_unit = 380\<rparr>),
         (8, \<lparr>ing_name = ''Portwein'', ing_unit = ''l'', ing_price_per_unit = 22\<rparr>)],
      packaging_types = map_of
        [(1, \<lparr>pkg_name = ''Weck-Glas 110ml'', pkg_size_l = 110 / 1000, pkg_price_jar = 105 / 100,
               pkg_price_lid = 0, pkg_price_label = 60 / 100\<rparr>),
         (2, \<lparr>pkg_name = ''Weck-Glas 245ml'', pkg_size_l = 245 / 1000, pkg_price_jar = 138 / 100,
               pkg_price_lid = 0, pkg_price_label = 60 / 100\<rparr>),
         (3, \<lparr>pkg_name = ''Weck-Glas 435ml'', pkg_size_l = 435 / 1000, pkg_price_jar = 158 / 100,
               pkg_price_lid = 0, pkg_price_label = 60 / 100\<rparr>),
         (4, \<lparr>pkg_name = ''Weck-Glas 795ml'', pkg_size_l = 795 / 1000, pkg_price_jar = 257 / 100,
               pkg_price_lid = 0, pkg_price_label = 60 / 100\<rparr>)],
      recipes = map_of
        [(1, \<lparr>rcp_name = ''Grundfond Kalb'', rcp_batch_size_l = 100, rcp_energy_cost_chf = 8,
               rcp_yield_pct = 60, rcp_level = Some 1\<rparr>),
         (2, \<lparr>rcp_name = ''Demi-Glace Classique'', rcp_batch_size_l = 50,
               rcp_energy_cost_chf = 480 / 100, rcp_yield_pct = 45, rcp_level = Some 2\<rparr>),
         (3, \<lparr>rcp_name = ''Sauce Perigueux'', rcp_batch_size_l = 10,
               rcp_energy_cost_chf = 160 / 100, rcp_yield_pct = 90, rcp_level = Some 3\<rparr>)],
      recipe_items = (\<lambda>r.
         if r = 1 then
           [\<lparr>item_ingredient_id = Some 1, item_sub_recipe_id = None, item_amount = 100\<rparr>,
            \<lparr>item_ingredient_id = Some 2, item_sub_recipe_id = None, item_amount = 30\<rparr>,
            \<lparr>item_ingredient_id = Some 3, item_sub_recipe_id = None, item_amount = 20\<rparr>]
         else if r = 2 then
           [\<lparr>item_ingredient_id = None, item_sub_recipe_id = Some 1, item_amount = 50\<rparr>,
            \<lparr>item_ingredient_id = Some 4, item_sub_recipe_id = None, item_amount = 5\<rparr>,
            \<lparr>item_ingredient_id = Some 5, item_sub_recipe_id = None, item_amount = 5 / 10\<rparr>]
         else if r = 3 then
           [\<lparr>item_ingredient_id = None, item_sub_recipe_id = Some 2, item_amount = 10\<rparr>,
            \<lparr>item_ingredient_id = Some 6, item_sub_recipe_id = None, item_amount = 5 / 10\<rparr>,
            \<lparr>item_ingredient_id = Some 7, item_sub_recipe_id = None, item_amount = 1 / 10\<rparr>,
            \<lparr>item_ingredient_id = Some 8, item_sub_recipe_id = None, item_amount = 15 / 10\<rparr>]
         else []),
      products = map_of
        [(1, \<lparr>prd_recipe_id = 1, prd_packaging_id = 2, prd_markup_factor = 38 / 10\<rparr>),
         (2, \<lparr>prd_recipe_id = 2, prd_packaging_id = 2, prd_markup_factor = 52 / 10\<rparr>),
         (3, \<lparr>prd_recipe_id = 3, prd_packaging_id = 2, prd_markup_factor = 65 / 10\<rparr>),
         (4, \<lparr>prd_recipe_id = 2, prd_packaging_id = 4, prd_markup_factor = 4\<rparr>)]\<rparr>"

text \<open>The calculator after \<open>calculate_recipe_cost(1)\<close> on the seed data, and what that call returns.\<close>

definition warm_calculator :: gastro_calculator where
  "warm_calculator = snd (calculate_recipe_cost (init_calculator seed_db) 1 0)"

definition grundfond_result :: recipe_result where
  "grundfond_result =
     (3979 / 600,
      \<lparr>d_name = ''Grundfond Kalb'', d_batch_size = 100, d_yield_pct = 60, d_level = Some 1,
       d_ingredients =
         [\<lparr>il_name = ''Kalbsknochen'', il_amount = 100, il_unit = ''kg'',
           il_price_per_unit = 3 / 2, il_cost = 150\<rparr>,
          \<lparr>il_name = ''Mirepoix-Gemuese'', il_amount = 30, il_unit = ''kg'',
           il_price_per_unit = 333 / 100, il_cost = 999 / 10\<rparr>,
          \<lparr>il_name = ''Weisswein'', il_amount = 20, il_unit = ''l'',
           il_price_per_unit = 7, il_cost = 140\<rparr>],
       d_sub_recipes = [], d_energy_cost = 8,
       d_total_material_cost = 3899 / 10, d_total_cost = 3979 / 10,
       d_net_output_l = 60, d_cost_per_liter = 3979 / 600\<rparr>)"

text \<open>
  What \<open>calculate_recipe_cost(2)\<close> returns on the seed data, and the calculator after
  that call.
\<close>

definition demi_glace_result :: recipe_result where
  "demi_glace_result =
     (22883 / 1350,
      \<lparr>d_name = ''Demi-Glace Classique'', d_batch_size = 50, d_yield_pct = 45,
       d_level = Some 2,
       d_ingredients =
         [\<lparr>il_name = ''Tomatenpueree'', il_amount = 5, il_unit = ''kg'',
           il_price_per_unit = 9 / 2, il_cost = 45 / 2\<rparr>,
          \<lparr>il_name = ''Cognac'', il_amount = 1 / 2, il_unit = ''l'',
           il_price_per_unit = 45, il_cost = 45 / 2\<rparr>],
       d_sub_recipes =
         [\<lparr>sl_recipe_id = 1, sl_name = ''Grundfond Kalb'', sl_amount_l = 50,
           sl_cost_per_liter = 3979 / 600, sl_cost = 3979 / 12\<rparr>],
       d_energy_cost = 24 / 5, d_total_material_cost = 4519 / 12,
       d_total_cost = 22883 / 60, d_net_output_l = 45 / 2,
       d_cost_per_liter = 22883 / 1350\<rparr>)"

definition demi_glace_calculator :: gastro_calculator where
  "demi_glace_calculator = snd (calculate_recipe_cost (init_calculator seed_db) 2 0)"

text \<open>
  A database in which everything is free: one recipe without items and without energy
  cost, one packaging type whose three prices are 0, one product.
\<close>

definition free_db :: database where
  "free_db =
     \<lparr>ingredients = Map.empty,
      packaging_types = map_of
        [(1, \<lparr>pkg_name = ''Beutel'', pkg_size_l = 1 / 10, pkg_price_jar = 0,
               pkg_price_lid = 0, pkg_price_label = 0\<rparr>)],
      recipes = map_of
        [(1, \<lparr>rcp_name = ''Wasser'', rcp_batch_size_l = 10, rcp_energy_cost_chf = 0,
               rcp_yield_pct = 100, rcp_level = Some 1\<rparr>)],
      recipe_items = (\<lambda>r. []),
      products = map_of
        [(1, \<lparr>prd_recipe_id = 1, prd_packaging_id = 1, prd_markup_factor = 2\<rparr>)]\<rparr>"

text \<open>What \<open>calculate_product(1)\<close> returns on the seed data: Grundfond in the 245 ml jar.\<close>

definition grundfond_245ml :: product_result where
  "grundfond_245ml =
     \<lparr>p_product_id = 1, p_recipe_name = ''Grundfond Kalb'',
      p_packaging_name = ''Weck-Glas 245ml'', p_size_l = 49 / 200,
      p_recipe_cost_per_liter = 3979 / 600, p_packaging_cost = 99 / 50,
      p_cost_per_unit = 432571 / 120000, p_markup_factor = 19 / 5,
      p_target_price = 137 / 10, p_brutto_margin_pct = 1211429 / 16440,
      p_recipe_details = snd grundfond_result\<rparr>"

text \<open>
  A database with dangling references (SQLite does not enforce foreign keys unless asked
  to): recipe 1 has an item for ingredient 99 and product 1 names packaging 9, and neither
  row exists.
\<close>

definition dangling_db :: database where
  "dangling_db =
     \<lparr>ingredients = Map.empty,
      packaging_types = Map.empty,
      recipes = map_of
        [(1, \<lparr>rcp_name = ''Fond'', rcp_batch_size_l = 10, rcp_energy_cost_chf = 1,
               rcp_yield_pct = 50, rcp_level = Some 1\<rparr>),
         (2, \<lparr>rcp_name = ''Wasser'', rcp_batch_size_l = 10, rcp_energy_cost_chf = 1,
               rcp_yield_pct = 100, rcp_level = Some 1\<rparr>)],
      recipe_items = (\<lambda>r. if r = 1 then
          [\<lparr>item_ingredient_id = Some 99, item_sub_recipe_id = None, item_amount = 1\<rparr>]
        else []),
      products = map_of
        [(1, \<lparr>prd_recipe_id = 2, prd_packaging_id = 9, prd_markup_factor = 2\<rparr>)]\<rparr>"

text \<open>A recipe whose batch size and yield are both negative, and what the method returns for it.\<close>

definition negative_batch_db :: database where
  "negative_batch_db =
     \<lparr>ingredients = Map.empty,
      packaging_types = Map.empty,
      recipes = map_of
        [(1, \<lparr>rcp_name = ''Negativ'', rcp_batch_size_l = - 100, rcp_energy_cost_chf = 10,
               rcp_yield_pct = - 50, rcp_level = Some 1\<rparr>)],
      recipe_items = (\<lambda>r. []),
      products = Map.empty\<rparr>"

definition negative_batch_result :: recipe_result where
  "negative_batch_result =
     (0, \<lparr>d_name = ''Negativ'', d_batch_size = - 100, d_yield_pct = - 50, d_level = Some 1,
       d_ingredients = [], d_sub_recipes = [], d_energy_cost = 10,
       d_total_material_cost = 0, d_total_cost = 10,
       d_net_output_l = 50, d_cost_per_liter = 0\<rparr>)"



text \<open>Five recipes, each but the fifth made of one liter of the next.\<close>

definition chain_db :: database where
  "chain_db =
     \<lparr>ingredients = Map.empty,
      packaging_types = Map.empty,
      recipes = (\<lambda>r. if 1 \<le> r \<and> r \<le> 5
         then Some \<lparr>rcp_name = ''Stufe'', rcp_batch_size_l = 10, rcp_energy_cost_chf = 1,
                    rcp_yield_pct = 100, rcp_level = Some 1\<rparr>
         else None),
      recipe_items = (\<lambda>r. if 1 \<le> r \<and> r < 5
         then [\<lparr>item_ingredient_id = None, item_sub_recipe_id = Some (r + 1), item_amount = 1\<rparr>]
         else []),
      products = Map.empty\<rparr>"

text \<open>
  A database in which a sub-recipe is shared: recipe 1 uses 2 and 5; 2 uses 3, which uses
  4; 5 uses 6, which uses 2 again. Through 5 the references run six levels deep
  (1, 5, 6, 2, 3, 4).
\<close>

definition shared_db :: database where
  "shared_db =
     \<lparr>ingredients = Map.empty,
      packaging_types = Map.empty,
      recipes = (\<lambda>r. if 1 \<le> r \<and> r \<le> 6
         then Some \<lparr>rcp_name = ''Stufe'', rcp_batch_size_l = 10, rcp_energy_cost_chf = 1,
                    rcp_yield_pct = 100, rcp_level = Some 1\<rparr>
         else None),
      recipe_items = (\<lambda>r.
         if r = 1 then
           [\<lparr>item_ingredient_id = None, item_sub_recipe_id = Some 2, item_amount = 1\<rparr>,
            \<lparr>item_ingredient_id = None, item_sub_recipe_id = Some 5, item_amount = 1\<rparr>]
         else if r = 2 then
           [\<lparr>item_ingredient_id = None, item_sub_recipe_id = Some 3, item_amount = 1\<rparr>]
         else if r = 3 then
           [\<lparr>item_ingredient_id = None, item_sub_recipe_id = Some 4, item_amount = 1\<rparr>]
         else if r = 5 then
           [\<lparr>item_ingredient_id = None, item_sub_recipe_id = Some 6, item_amount = 1\<rparr>]
         else if r = 6 then
           [\<lparr>item_ingredient_id = None, item_sub_recipe_id = Some 2, item_amount = 1\<rparr>]
         else []),
      products = Map.empty\<rparr>"

subsection \<open>Notions used in the statements\<close>

text \<open>
  The items of a recipe as the loop classifies them. \<open>ingredient_items\<close> lists amount
  and unit price of the items taken as ingredients (truthy \<open>ingredient_id\<close>, row
  present); \<open>sub_recipe_items\<close> lists sub-recipe identifier and amount of the items
  taken as sub-recipes (falsy \<open>ingredient_id\<close>, truthy \<open>sub_recipe_id\<close>).
\<close>

definition ingredient_items :: "database \<Rightarrow> item_row list \<Rightarrow> (real \<times> real) list" where
  "ingredient_items db items =
     concat (map (\<lambda>item.
       case truthy_id (item_ingredient_id item) of
         None \<Rightarrow> []
       | Some i \<Rightarrow> (case ingredients db i of
                     None \<Rightarrow> []
                   | Some ing \<Rightarrow> [(item_amount item, ing_price_per_unit ing)])) items)"

definition sub_recipe_items :: "item_row list \<Rightarrow> (int \<times> real) list" where
  "sub_recipe_items items =
     concat (map (\<lambda>item.
       case truthy_id (item_ingredient_id item) of
         Some i \<Rightarrow> []
       | None \<Rightarrow> (case truthy_id (item_sub_recipe_id item) of
                    None \<Rightarrow> []
                  | Some s \<Rightarrow> [(s, item_amount item)])) items)"

text \<open>
  An item with neither reference, the database without such items, and a calculator
  whose connection is to a changed database.
\<close>

definition neither_item :: "item_row \<Rightarrow> bool" where
  "neither_item item =
     (truthy_id (item_ingredient_id item) = None \<and> truthy_id (item_sub_recipe_id item) = None)"

definition without_neither_items :: "database \<Rightarrow> database" where
  "without_neither_items db =
     db\<lparr>recipe_items := (\<lambda>r. filter (\<lambda>item. \<not> neither_item item) (recipe_items db r))\<rparr>"

definition on_database :: "(database \<Rightarrow> database) \<Rightarrow> gastro_calculator \<Rightarrow> gastro_calculator" where
  "on_database f self = self\<lparr>conn := f (conn self)\<rparr>"

text \<open>
  \<open>hops db n r x\<close>: from recipe \<open>r\<close>, following \<open>n\<close> times an item that the loop
  takes as a sub-recipe, one arrives at \<open>x\<close>; each recipe left on the way exists.
  These are the identifiers on which a call for \<open>r\<close> can make a recursive call
  \<open>n\<close> levels down.
\<close>

fun hops :: "database \<Rightarrow> nat \<Rightarrow> int \<Rightarrow> int \<Rightarrow> bool" where
  "hops db 0 r x = (r = x)"
| "hops db (Suc n) r x =
     (recipes db r \<noteq> None
      \<and> (\<exists>s \<in> fst ` set (sub_recipe_items (recipe_items db r)). hops db n s x))"

text \<open>
  A chain of sub-recipe references: every recipe of the list exists, each one but the
  last has exactly one item, which refers to the next as a sub-recipe, and the last has
  no item. The length of the list is the number of levels.
\<close>

fun reference_chain :: "database \<Rightarrow> int list \<Rightarrow> bool" where
  "reference_chain db [] = False"
| "reference_chain db [r] = (recipes db r \<noteq> None \<and> recipe_items db r = [])"
| "reference_chain db (r # s # rs) =
     (recipes db r \<noteq> None
      \<and> map (\<lambda>item. (truthy_id (item_ingredient_id item), truthy_id (item_sub_recipe_id item)))
            (recipe_items db r) = [(None, Some s)]
      \<and> reference_chain db (s # rs))"

subsection \<open>Notions used in the proofs\<close>

text \<open>
  The sub-recipes of a recipe: the identifiers its items refer to as sub-recipes, for a
  recipe that exists.
\<close>

definition sub_recipe_ids :: "database \<Rightarrow> int \<Rightarrow> int set" where
  "sub_recipe_ids db r =
     (case recipes db r of
        None \<Rightarrow> {}
      | Some recipe \<Rightarrow> fst ` set (sub_recipe_items (recipe_items db r)))"

text \<open>The sub-recipe references between recipes outside a set \<open>C\<close> of (cached) recipes.\<close>

definition uncached_edges :: "database \<Rightarrow> int set \<Rightarrow> (int \<times> int) set" where
  "uncached_edges db C = {(a, b). a \<notin> C \<and> b \<notin> C \<and> b \<in> sub_recipe_ids db a}"

text \<open>
  The two statements that look a recipe up. \<open>fresh_lookups s s'\<close> says that from
  \<open>s\<close> to \<open>s'\<close> statements were only added, that each lookup of a recipe was added
  at most once, and only for a recipe that was not cached in \<open>s\<close> and is cached in
  \<open>s'\<close>.
\<close>

definition recipe_queries :: "int \<Rightarrow> query set" where
  "recipe_queries y = {SelectRecipe y, SelectRecipeItems y}"

definition fresh_lookups :: "gastro_calculator \<Rightarrow> gastro_calculator \<Rightarrow> bool" where
  "fresh_lookups s s' \<longleftrightarrow>
     (\<exists>new. executed s' = executed s @ new
        \<and> (\<forall>q y. q \<in> recipe_queries y \<longrightarrow>
              count_list new q \<le> 1
              \<and> (q \<in> set new \<longrightarrow> recipe_cache s y = None \<and> recipe_cache s' y \<noteq> None)))"

text \<open>
  Not the code but a yardstick for it: the cost rollup as section 4.1 of the
  specification words it, without cache and without depth counter.
  \<open>rollup db n r\<close> resolves recipe \<open>r\<close> through at most \<open>n\<close> levels of recipes
  and gives \<open>None\<close> where a row is missing or the levels do not suffice. It serves to
  compare the results that calculators with different caches return.
\<close>

fun rollup_items ::
  "database \<Rightarrow> (int \<Rightarrow> recipe_result option) \<Rightarrow> item_row list \<Rightarrow> loop_state \<Rightarrow>
   loop_state option" where
  "rollup_items db sub_cost [] acc = Some acc"
| "rollup_items db sub_cost (item # items) (tmc, ings, subs) =
     (case truthy_id (item_ingredient_id item) of
        Some i \<Rightarrow>
          (case ingredients db i of
             None \<Rightarrow> None
           | Some ing \<Rightarrow>
               rollup_items db sub_cost items
                 (tmc + item_amount item * ing_price_per_unit ing,
                  ings @ [\<lparr>il_name = ing_name ing, il_amount = item_amount item,
                            il_unit = ing_unit ing,
                            il_price_per_unit = ing_price_per_unit ing,
                            il_cost = item_amount item * ing_price_per_unit ing\<rparr>],
                  subs))
      | None \<Rightarrow>
          (case truthy_id (item_sub_recipe_id item) of
             Some s \<Rightarrow>
               (case sub_cost s of
                  None \<Rightarrow> None
                | Some (c, d) \<Rightarrow>
                    rollup_items db sub_cost items
                      (tmc + item_amount item * c, ings,
                       subs @ [\<lparr>sl_recipe_id = s, sl_name = d_name d,
                                 sl_amount_l = item_amount item,
                                 sl_cost_per_liter = c,
                                 sl_cost = item_amount item * c\<rparr>]))
           | None \<Rightarrow> rollup_items db sub_cost items (tmc, ings, subs)))"

fun rollup :: "database \<Rightarrow> nat \<Rightarrow> int \<Rightarrow> recipe_result option" where
  "rollup db 0 r = None"
| "rollup db (Suc n) r =
     (case recipes db r of
        None \<Rightarrow> None
      | Some recipe \<Rightarrow>
          map_option (recipe_result_of recipe)
            (rollup_items db (\<lambda>s. rollup db n s) (recipe_items db r) (0, [], [])))"

text \<open>A cache all of whose entries are rollups of the database.\<close>

definition cache_sound :: "database \<Rightarrow> (int \<rightharpoonup> recipe_result) \<Rightarrow> bool" where
  "cache_sound db c \<longleftrightarrow> (\<forall>r v. c r = Some v \<longrightarrow> (\<exists>n. rollup db n r = Some v))"



section \<open>Properties\<close>

subsection \<open>Unfolding the two functions\<close>

lemmas eval_defs =
  calculate_recipe_cost.simps process_items.simps
  init_calculator_def execute_def truthy_id_def calc_cost_per_liter_def
  calc_cost_per_unit_def calc_target_price_def py_round_def Let_def

lemma conn_execute [simp]: "conn (execute q self) = conn self"
  by (simp add: execute_def)

lemma recipe_cache_execute [simp]: "recipe_cache (execute q self) = recipe_cache self"
  by (simp add: execute_def)

lemma executed_execute [simp]: "executed (execute q self) = executed self @ [q]"
  by (simp add: execute_def)

lemma item_cases [case_names ingredient sub_recipe neither]:
  obtains i where "truthy_id (item_ingredient_id item) = Some i"
  | s where "truthy_id (item_ingredient_id item) = None"
      and "truthy_id (item_sub_recipe_id item) = Some s"
  | "truthy_id (item_ingredient_id item) = None"
      and "truthy_id (item_sub_recipe_id item) = None"
  by (cases "truthy_id (item_ingredient_id item)"; cases "truthy_id (item_sub_recipe_id item)") auto

lemma process_items_ingredient:
  assumes "truthy_id (item_ingredient_id item) = Some i"
  shows "process_items resolve (item # items) (tmc, ings, subs) self =
    (case ingredients (conn self) i of
       None \<Rightarrow> (Inl TypeError, execute (SelectIngredient i) self)
     | Some ing \<Rightarrow>
         process_items resolve items
           (tmc + item_amount item * ing_price_per_unit ing,
            ings @ [\<lparr>il_name = ing_name ing, il_amount = item_amount item,
                      il_unit = ing_unit ing,
                      il_price_per_unit = ing_price_per_unit ing,
                      il_cost = item_amount item * ing_price_per_unit ing\<rparr>],
            subs) (execute (SelectIngredient i) self))"
  using assms by (simp add: Let_def split: option.splits)

lemma process_items_sub_recipe:
  assumes "truthy_id (item_ingredient_id item) = None"
    and "truthy_id (item_sub_recipe_id item) = Some s"
  shows "process_items resolve (item # items) (tmc, ings, subs) self =
    (case resolve self s of
       (Inl e, self1) \<Rightarrow> (Inl e, self1)
     | (Inr (sub_cost_per_liter, sub_details), self1) \<Rightarrow>
         process_items resolve items
           (tmc + item_amount item * sub_cost_per_liter,
            ings,
            subs @ [\<lparr>sl_recipe_id = s, sl_name = d_name sub_details,
                      sl_amount_l = item_amount item,
                      sl_cost_per_liter = sub_cost_per_liter,
                      sl_cost = item_amount item * sub_cost_per_liter\<rparr>])
           self1)"
  using assms by (simp add: Let_def split: prod.splits sum.splits)

lemma process_items_neither:
  assumes "truthy_id (item_ingredient_id item) = None"
    and "truthy_id (item_sub_recipe_id item) = None"
  shows "process_items resolve (item # items) acc self = process_items resolve items acc self"
  using assms by (cases acc) (simp add: Let_def)

declare process_items.simps(2) [simp del]

lemma process_items_conn:
  assumes "\<And>s sub. conn (snd (resolve s sub)) = conn s"
  shows "conn (snd (process_items resolve items acc self)) = conn self"
proof (induction items arbitrary: acc self)
  case Nil
  show ?case by simp
next
  case (Cons item items)
  obtain tmc ings subs where acc: "acc = (tmc, ings, subs)"
    by (cases acc)
  show ?case
  proof (cases item rule: item_cases)
    case (ingredient i)
    show ?thesis
      unfolding acc process_items_ingredient [OF ingredient]
      by (simp add: Cons.IH split: option.splits)
  next
    case (sub_recipe s)
    show ?thesis
      using assms [of self s]
      unfolding acc process_items_sub_recipe [OF sub_recipe]
      by (auto simp: Cons.IH split: prod.splits sum.splits)
  next
    case neither
    show ?thesis
      unfolding process_items_neither [OF neither] by (rule Cons.IH)
  qed
qed

text \<open>The four ways through \<open>calculate_recipe_cost\<close>, one equation each.\<close>

lemma calculate_recipe_cost_guard:
  "3 < depth \<Longrightarrow>
   calculate_recipe_cost self recipe_id depth = (Inl (RecursionError recipe_id), self)"
  by (simp add: calculate_recipe_cost.simps)

lemma calculate_recipe_cost_cached:
  "\<not> 3 < depth \<Longrightarrow> recipe_cache self recipe_id = Some cached \<Longrightarrow>
   calculate_recipe_cost self recipe_id depth = (Inr cached, self)"
  by (simp add: calculate_recipe_cost.simps)

lemma calculate_recipe_cost_not_found:
  "\<not> 3 < depth \<Longrightarrow> recipe_cache self recipe_id = None \<Longrightarrow>
   recipes (conn self) recipe_id = None \<Longrightarrow>
   calculate_recipe_cost self recipe_id depth =
     (Inl (RecipeNotFound recipe_id), execute (SelectRecipe recipe_id) self)"
  by (simp add: calculate_recipe_cost.simps)

lemma calculate_recipe_cost_compute:
  "\<not> 3 < depth \<Longrightarrow> recipe_cache self recipe_id = None \<Longrightarrow>
   recipes (conn self) recipe_id = Some recipe \<Longrightarrow>
   calculate_recipe_cost self recipe_id depth =
     (case process_items (\<lambda>s sub. calculate_recipe_cost s sub (depth + 1))
             (recipe_items (conn self) recipe_id) (0, [], [])
             (execute (SelectRecipeItems recipe_id) (execute (SelectRecipe recipe_id) self)) of
        (Inl e, self3) \<Rightarrow> (Inl e, self3)
      | (Inr acc, self3) \<Rightarrow>
          (Inr (recipe_result_of recipe acc),
           self3\<lparr>recipe_cache := (recipe_cache self3)(recipe_id \<mapsto> recipe_result_of recipe acc)\<rparr>))"
  by (subst calculate_recipe_cost.simps)
     (simp add: recipe_result_of_def Let_def split: prod.splits sum.splits)

lemma calculate_recipe_cost_cases [case_names guard cached not_found compute]:
  obtains "3 < depth"
  | cached where "\<not> 3 < depth" and "recipe_cache self recipe_id = Some cached"
  | "\<not> 3 < depth" and "recipe_cache self recipe_id = None"
      and "recipes (conn self) recipe_id = None"
  | recipe where "\<not> 3 < depth" and "recipe_cache self recipe_id = None"
      and "recipes (conn self) recipe_id = Some recipe"
  by (cases "3 < depth"; cases "recipe_cache self recipe_id";
      cases "recipes (conn self) recipe_id") auto

lemma calculate_recipe_cost_conn:
  "conn (snd (calculate_recipe_cost self recipe_id depth)) = conn self"
proof (induction self recipe_id depth rule: calculate_recipe_cost.induct)
  case (1 self recipe_id depth)
  show ?case
  proof (cases rule: calculate_recipe_cost_cases [where depth = depth and self = self and recipe_id = recipe_id])
    case guard
    then show ?thesis by (simp add: calculate_recipe_cost_guard)
  next
    case (cached v)
    then show ?thesis by (simp add: calculate_recipe_cost_cached)
  next
    case not_found
    then show ?thesis by (simp add: calculate_recipe_cost_not_found)
  next
    case (compute recipe)
    have ih: "\<And>s sub. conn (snd (calculate_recipe_cost s sub (depth + 1))) = conn s"
      using 1 [OF compute(1,2) refl _ refl refl] compute(3) by simp
    have "conn (snd (process_items (\<lambda>s sub. calculate_recipe_cost s sub (depth + 1))
             (recipe_items (conn self) recipe_id) (0, [], [])
             (execute (SelectRecipeItems recipe_id) (execute (SelectRecipe recipe_id) self))))
          = conn self"
      using process_items_conn [of "\<lambda>s sub. calculate_recipe_cost s sub (depth + 1)"] ih
      by simp
    then show ?thesis
      unfolding calculate_recipe_cost_compute [OF compute]
      by (auto split: prod.splits sum.splits)
  qed
qed

lemma calculate_product_conn:
  "conn (snd (calculate_product self product_id)) = conn self"
proof -
  have "conn s = conn self"
    if "calculate_recipe_cost (execute (SelectProduct product_id) self) r 0 = (res, s)"
    for r res s
    using calculate_recipe_cost_conn [of "execute (SelectProduct product_id) self" r 0] that
    by simp
  then show ?thesis
    by (simp add: calculate_product_def Let_def split: option.splits prod.splits sum.splits)
qed

subsection \<open>The seed data\<close>

lemma warm_calculator_eq:
  "warm_calculator =
     \<lparr>conn = seed_db,
      recipe_cache = [1 \<mapsto> grundfond_result],
      executed = [SelectRecipe 1, SelectRecipeItems 1,
                  SelectIngredient 1, SelectIngredient 2, SelectIngredient 3]\<rparr>"
  by (simp add: warm_calculator_def grundfond_result_def seed_db_def eval_defs)

lemma demi_glace_call:
  "calculate_recipe_cost (init_calculator seed_db) 2 0
     = (Inr demi_glace_result, demi_glace_calculator)"
proof (rule prod_eqI)
  show "fst (calculate_recipe_cost (init_calculator seed_db) 2 0)
          = fst (Inr demi_glace_result, demi_glace_calculator)"
    by (simp add: demi_glace_result_def seed_db_def eval_defs)
  show "snd (calculate_recipe_cost (init_calculator seed_db) 2 0)
          = snd (Inr demi_glace_result, demi_glace_calculator)"
    by (simp add: demi_glace_calculator_def)
qed

lemma grundfond_call:
  "calculate_recipe_cost (init_calculator seed_db) 1 0 = (Inr grundfond_result, warm_calculator)"
proof (rule prod_eqI)
  show "fst (calculate_recipe_cost (init_calculator seed_db) 1 0)
          = fst (Inr grundfond_result, warm_calculator)"
    by (simp add: grundfond_result_def seed_db_def eval_defs)
  show "snd (calculate_recipe_cost (init_calculator seed_db) 1 0)
          = snd (Inr grundfond_result, warm_calculator)"
    by (simp add: warm_calculator_def)
qed

subsection \<open>Rounding to five cents\<close>

lemma py_round_near: "\<bar>of_int (py_round x) - x\<bar> \<le> 1 / 2"
  unfolding py_round_def Let_def by (auto; linarith)

text \<open>
  Claim C6. The target price is \<open>round(cost_per_unit * markup_factor * 20) / 20\<close>
  with Python's \<open>round\<close>; it is a multiple of 0.05 and differs from the unrounded
  price by at most half an increment, so it is a nearest multiple of 0.05. Rounding
  19.03 gives 19.05 and rounding 19.00 gives 19.00.
\<close>

theorem calc_target_price_five_cents:
  "calc_target_price cost_per_unit markup_factor =
     of_int (py_round (cost_per_unit * markup_factor * 20)) / 20
   \<and> (\<exists>k :: int. calc_target_price cost_per_unit markup_factor = of_int k * (5 / 100))
   \<and> \<bar>calc_target_price cost_per_unit markup_factor - cost_per_unit * markup_factor\<bar>
       \<le> (5 / 100) / 2
   \<and> calc_target_price (1903 / 100) 1 = 1905 / 100
   \<and> calc_target_price 19 1 = 19"
proof -
  let ?k = "py_round (cost_per_unit * markup_factor * 20)"
  have eq: "calc_target_price cost_per_unit markup_factor = of_int ?k / 20"
    by (simp add: calc_target_price_def)
  have multiple: "\<exists>k :: int. calc_target_price cost_per_unit markup_factor = of_int k * (5 / 100)"
    by (rule exI [of _ ?k]) (simp add: eq)
  have "\<bar>of_int ?k - cost_per_unit * markup_factor * 20\<bar> \<le> 1 / 2"
    by (rule py_round_near)
  then have near:
    "\<bar>calc_target_price cost_per_unit markup_factor - cost_per_unit * markup_factor\<bar>
       \<le> (5 / 100) / 2"
    by (simp add: eq abs_le_iff field_simps)
  have ex1: "calc_target_price (1903 / 100) 1 = 1905 / 100"
    by (simp add: calc_target_price_def py_round_def)
  have ex2: "calc_target_price 19 1 = 19"
    by (simp add: calc_target_price_def py_round_def)
  from eq multiple near ex1 ex2 show ?thesis by blast
qed

subsection \<open>The database is only read\<close>

text \<open>
  Claim C9. Neither method changes the database behind the connection, whether it
  returns or raises: the connection of the object after the call is the one before.
  (What does change is \<open>recipe_cache\<close>, and the record of executed statements.)
\<close>

theorem database_unchanged:
  "conn (snd (calculate_recipe_cost self recipe_id depth)) = conn self
   \<and> conn (snd (calculate_product self product_id)) = conn self"
  by (simp add: calculate_recipe_cost_conn calculate_product_conn)

subsection \<open>A cached recipe\<close>

text \<open>
  Claim C3, as stated, fails: the depth guard precedes the cache lookup, so a call
  with \<open>depth > 3\<close> raises although the recipe is cached. After
  \<open>calculate_recipe_cost(1)\<close> on the seed data recipe 1 is cached, and
  \<open>calculate_recipe_cost(1, 4)\<close> raises \<open>RecursionError\<close>.
\<close>

theorem cached_depth_counterexample:
  "recipe_cache warm_calculator 1 = Some grundfond_result
   \<and> fst (calculate_recipe_cost warm_calculator 1 4) = Inl (RecursionError 1)"
  by (simp add: warm_calculator_eq calculate_recipe_cost_guard)

text \<open>
  Claim C3, amended. For a recipe identifier present in the cache, a call with
  \<open>depth \<le> 3\<close> returns the cached pair, and a call with \<open>depth > 3\<close> raises the
  depth error; in both cases the object is unchanged, so no statement is executed.
\<close>

theorem cached_call:
  assumes "recipe_cache self recipe_id = Some cached"
  shows "calculate_recipe_cost self recipe_id depth =
           (if 3 < depth then Inl (RecursionError recipe_id) else Inr cached, self)"
  using assms by (simp add: calculate_recipe_cost_guard calculate_recipe_cost_cached)

theorem cached_call_witness:
  "recipe_cache warm_calculator 1 = Some grundfond_result
   \<and> calculate_recipe_cost warm_calculator 1 0 = (Inr grundfond_result, warm_calculator)
   \<and> calculate_recipe_cost warm_calculator 1 3 = (Inr grundfond_result, warm_calculator)
   \<and> calculate_recipe_cost warm_calculator 1 4 = (Inl (RecursionError 1), warm_calculator)"
proof -
  have c: "recipe_cache warm_calculator 1 = Some grundfond_result"
    by (simp add: warm_calculator_eq)
  show ?thesis
    using c cached_call [OF c, of 0] cached_call [OF c, of 3] cached_call [OF c, of 4]
    by simp
qed

subsection \<open>The margin\<close>

lemma product_seed: "fst (calculate_product (init_calculator seed_db) 1) = Inr grundfond_245ml"
  by (simp add: calculate_product_def grundfond_245ml_def grundfond_result_def seed_db_def eval_defs)

lemma product_free: "fst (calculate_product (init_calculator free_db) 1) = Inl ZeroDivisionError"
  by (simp add: calculate_product_def free_db_def eval_defs)

text \<open>
  Claim C7. When \<open>calculate_product\<close> returns, the margin is
  \<open>(target_price - cost_per_unit) / target_price * 100\<close> and the target price is not
  zero. When product, recipe cost and packaging are found and the target price is
  zero, the unguarded division raises \<open>ZeroDivisionError\<close>: no result is returned.
\<close>

theorem margin_formula:
  "(fst (calculate_product self product_id) = Inr res \<longrightarrow>
      p_target_price res \<noteq> 0
      \<and> p_brutto_margin_pct res =
          (p_target_price res - p_cost_per_unit res) / p_target_price res * 100)
   \<and> (products (conn self) product_id = Some product \<longrightarrow>
      fst (calculate_recipe_cost (execute (SelectProduct product_id) self)
             (prd_recipe_id product) 0) = Inr (cost_per_liter, details) \<longrightarrow>
      packaging_types (conn self) (prd_packaging_id product) = Some packaging \<longrightarrow>
      calc_target_price
        (calc_cost_per_unit cost_per_liter (pkg_size_l packaging) (pkg_price_jar packaging)
           (pkg_price_lid packaging) (pkg_price_label packaging))
        (prd_markup_factor product) = 0 \<longrightarrow>
      fst (calculate_product self product_id) = Inl ZeroDivisionError)"
proof (intro conjI impI)
  assume r: "fst (calculate_product self product_id) = Inr res"
  then show "p_target_price res \<noteq> 0"
    by (auto simp: calculate_product_def Let_def
        split: option.splits prod.splits sum.splits if_splits)
  from r show "p_brutto_margin_pct res =
      (p_target_price res - p_cost_per_unit res) / p_target_price res * 100"
    by (auto simp: calculate_product_def Let_def
        split: option.splits prod.splits sum.splits if_splits)
next
  assume p: "products (conn self) product_id = Some product"
    and c: "fst (calculate_recipe_cost (execute (SelectProduct product_id) self)
             (prd_recipe_id product) 0) = Inr (cost_per_liter, details)"
    and k: "packaging_types (conn self) (prd_packaging_id product) = Some packaging"
    and z: "calc_target_price
        (calc_cost_per_unit cost_per_liter (pkg_size_l packaging) (pkg_price_jar packaging)
           (pkg_price_lid packaging) (pkg_price_label packaging))
        (prd_markup_factor product) = 0"
  obtain self2 where c2: "calculate_recipe_cost (execute (SelectProduct product_id) self)
             (prd_recipe_id product) 0 = (Inr (cost_per_liter, details), self2)"
    using c by (cases "calculate_recipe_cost (execute (SelectProduct product_id) self)
             (prd_recipe_id product) 0") simp
  have "conn self2 = conn self"
    using calculate_recipe_cost_conn
      [of "execute (SelectProduct product_id) self" "prd_recipe_id product" 0] c2
    by simp
  with p c2 k z show "fst (calculate_product self product_id) = Inl ZeroDivisionError"
    by (simp add: calculate_product_def Let_def)
qed

theorem margin_formula_witness:
  "fst (calculate_product (init_calculator seed_db) 1) = Inr grundfond_245ml
   \<and> p_target_price grundfond_245ml = 137 / 10
   \<and> p_brutto_margin_pct grundfond_245ml
        = (137 / 10 - p_cost_per_unit grundfond_245ml) / (137 / 10) * 100
   \<and> products (conn (init_calculator free_db)) 1
        = Some \<lparr>prd_recipe_id = 1, prd_packaging_id = 1, prd_markup_factor = 2\<rparr>
   \<and> fst (calculate_product (init_calculator free_db) 1) = Inl ZeroDivisionError"
proof -
  let ?product = "\<lparr>prd_recipe_id = 1, prd_packaging_id = 1, prd_markup_factor = 2\<rparr>"
  let ?packaging = "\<lparr>pkg_name = ''Beutel'', pkg_size_l = 1 / 10, pkg_price_jar = 0,
               pkg_price_lid = 0, pkg_price_label = 0\<rparr>"
  let ?details = "\<lparr>d_name = ''Wasser'', d_batch_size = 10, d_yield_pct = 100,
      d_level = Some 1, d_ingredients = [], d_sub_recipes = [], d_energy_cost = 0,
      d_total_material_cost = 0, d_total_cost = 0, d_net_output_l = 10,
      d_cost_per_liter = 0\<rparr>"
  have s: "fst (calculate_product (init_calculator seed_db) 1) = Inr grundfond_245ml"
    by (rule product_seed)
  have p: "products (conn (init_calculator free_db)) 1 = Some ?product"
    by (simp add: free_db_def init_calculator_def)
  have c: "fst (calculate_recipe_cost (execute (SelectProduct 1) (init_calculator free_db))
             (prd_recipe_id ?product) 0) = Inr (0, ?details)"
    by (simp add: free_db_def eval_defs)
  have k: "packaging_types (conn (init_calculator free_db)) (prd_packaging_id ?product)
      = Some ?packaging"
    by (simp add: free_db_def init_calculator_def)
  have z: "calc_target_price
        (calc_cost_per_unit 0 (pkg_size_l ?packaging) (pkg_price_jar ?packaging)
           (pkg_price_lid ?packaging) (pkg_price_label ?packaging))
        (prd_markup_factor ?product) = 0"
    by (simp add: eval_defs)
  from margin_formula [of "init_calculator seed_db" 1 grundfond_245ml]
       margin_formula [of "init_calculator free_db" 1 _ ?product 0 ?details ?packaging]
       s p c k z
  show ?thesis
    by (simp add: grundfond_245ml_def)
qed

subsection \<open>Rows that are referenced but absent\<close>

text \<open>An absent recipe or product is reported as such.\<close>

lemma absent_recipe_or_product:
  "(\<not> 3 < depth \<longrightarrow> recipe_cache self recipe_id = None \<longrightarrow>
      recipes (conn self) recipe_id = None \<longrightarrow>
      fst (calculate_recipe_cost self recipe_id depth) = Inl (RecipeNotFound recipe_id))
   \<and> (products (conn self) product_id = None \<longrightarrow>
      fst (calculate_product self product_id) = Inl (ProductNotFound product_id))"
  by (simp add: calculate_recipe_cost_not_found calculate_product_def)

text \<open>
  Claim C8 at its failing inputs. Recipe 1 of \<open>dangling_db\<close> has an item for
  ingredient 99, which does not exist; product 1 names packaging 9, which does not
  exist. Both calls raise \<open>TypeError\<close> (from \<open>None[...]\<close>), where an absent recipe
  or product raises the \<open>ValueError\<close> "nicht gefunden".
\<close>

theorem missing_row_type_error:
  "fst (calculate_recipe_cost (init_calculator dangling_db) 1 0) = Inl TypeError
   \<and> fst (calculate_product (init_calculator dangling_db) 1) = Inl TypeError"
  by (simp add: calculate_product_def dangling_db_def eval_defs)

subsection \<open>Cost per liter\<close>

text \<open>
  A remark on rows that the table's \<open>CHECK\<close>s refuse. The guard of
  \<open>calc_cost_per_liter\<close> tests each factor, so for a negative batch size with a
  negative yield it gives 0 although the product, the net output, is positive.
\<close>

lemma negative_batch_outside_checks:
  "fst (calculate_recipe_cost (init_calculator negative_batch_db) 1 0) = Inr negative_batch_result
   \<and> d_net_output_l (snd negative_batch_result) = 50
   \<and> (d_total_material_cost (snd negative_batch_result) + d_energy_cost (snd negative_batch_result))
       / d_net_output_l (snd negative_batch_result) = 1 / 5
   \<and> fst negative_batch_result = 0"
  by (simp add: negative_batch_db_def negative_batch_result_def eval_defs)

lemma process_items_lines:
  assumes "process_items resolve items (tmc, ings, subs) self = (Inr (tmc', ings', subs'), self')"
    and "\<And>s sub. conn (snd (resolve s sub)) = conn s"
  shows "\<exists>new_ings new_subs.
     ings' = ings @ new_ings \<and> subs' = subs @ new_subs
     \<and> tmc' = tmc + (\<Sum>l\<leftarrow>new_ings. il_amount l * il_price_per_unit l)
                   + (\<Sum>l\<leftarrow>new_subs. sl_amount_l l * sl_cost_per_liter l)
     \<and> (\<forall>l\<in>set new_ings. il_cost l = il_amount l * il_price_per_unit l)
     \<and> (\<forall>l\<in>set new_subs. sl_cost l = sl_amount_l l * sl_cost_per_liter l)
     \<and> map (\<lambda>l. (il_amount l, il_price_per_unit l)) new_ings = ingredient_items (conn self) items
     \<and> map (\<lambda>l. (sl_recipe_id l, sl_amount_l l)) new_subs = sub_recipe_items items"
  using assms(1)
proof (induction items arbitrary: tmc ings subs self)
  case Nil
  then show ?case by (simp add: ingredient_items_def sub_recipe_items_def)
next
  case (Cons item items)
  show ?case
  proof (cases rule: item_cases [where item = item])
    case (ingredient i)
    from Cons.prems obtain ing where ing: "ingredients (conn self) i = Some ing"
      and rest: "process_items resolve items
           (tmc + item_amount item * ing_price_per_unit ing,
            ings @ [\<lparr>il_name = ing_name ing, il_amount = item_amount item,
                      il_unit = ing_unit ing,
                      il_price_per_unit = ing_price_per_unit ing,
                      il_cost = item_amount item * ing_price_per_unit ing\<rparr>],
            subs) (execute (SelectIngredient i) self) = (Inr (tmc', ings', subs'), self')"
      unfolding process_items_ingredient [OF ingredient]
      by (auto split: option.splits)
    from Cons.IH [OF rest] obtain new_ings new_subs where
      ih: "ings' = (ings @ [\<lparr>il_name = ing_name ing, il_amount = item_amount item,
                      il_unit = ing_unit ing,
                      il_price_per_unit = ing_price_per_unit ing,
                      il_cost = item_amount item * ing_price_per_unit ing\<rparr>]) @ new_ings"
        "subs' = subs @ new_subs"
        "tmc' = tmc + item_amount item * ing_price_per_unit ing
                 + (\<Sum>l\<leftarrow>new_ings. il_amount l * il_price_per_unit l)
                 + (\<Sum>l\<leftarrow>new_subs. sl_amount_l l * sl_cost_per_liter l)"
        "\<forall>l\<in>set new_ings. il_cost l = il_amount l * il_price_per_unit l"
        "\<forall>l\<in>set new_subs. sl_cost l = sl_amount_l l * sl_cost_per_liter l"
        "map (\<lambda>l. (il_amount l, il_price_per_unit l)) new_ings = ingredient_items (conn self) items"
        "map (\<lambda>l. (sl_recipe_id l, sl_amount_l l)) new_subs = sub_recipe_items items"
      by auto
    let ?line = "\<lparr>il_name = ing_name ing, il_amount = item_amount item,
                      il_unit = ing_unit ing,
                      il_price_per_unit = ing_price_per_unit ing,
                      il_cost = item_amount item * ing_price_per_unit ing\<rparr>"
    show ?thesis
      apply (rule exI [of _ "?line # new_ings"])
      apply (rule exI [of _ new_subs])
      using ih ingredient ing
      apply (simp add: ingredient_items_def sub_recipe_items_def)
      done
  next
    case (sub_recipe s)
    from Cons.prems obtain c d self1 where res: "resolve self s = (Inr (c, d), self1)"
      and rest: "process_items resolve items
           (tmc + item_amount item * c, ings,
            subs @ [\<lparr>sl_recipe_id = s, sl_name = d_name d,
                      sl_amount_l = item_amount item,
                      sl_cost_per_liter = c,
                      sl_cost = item_amount item * c\<rparr>])
           self1 = (Inr (tmc', ings', subs'), self')"
      unfolding process_items_sub_recipe [OF sub_recipe]
      by (auto split: prod.splits sum.splits)
    have conn1: "conn self1 = conn self"
      using assms(2) [of self s] res by simp
    let ?line = "\<lparr>sl_recipe_id = s, sl_name = d_name d,
                      sl_amount_l = item_amount item,
                      sl_cost_per_liter = c,
                      sl_cost = item_amount item * c\<rparr>"
    from Cons.IH [OF rest] obtain new_ings new_subs where
      ih: "ings' = ings @ new_ings"
        "subs' = (subs @ [?line]) @ new_subs"
        "tmc' = tmc + item_amount item * c
                 + (\<Sum>l\<leftarrow>new_ings. il_amount l * il_price_per_unit l)
                 + (\<Sum>l\<leftarrow>new_subs. sl_amount_l l * sl_cost_per_liter l)"
        "\<forall>l\<in>set new_ings. il_cost l = il_amount l * il_price_per_unit l"
        "\<forall>l\<in>set new_subs. sl_cost l = sl_amount_l l * sl_cost_per_liter l"
        "map (\<lambda>l. (il_amount l, il_price_per_unit l)) new_ings = ingredient_items (conn self1) items"
        "map (\<lambda>l. (sl_recipe_id l, sl_amount_l l)) new_subs = sub_recipe_items items"
      by auto
    show ?thesis
      apply (rule exI [of _ new_ings])
      apply (rule exI [of _ "?line # new_subs"])
      using ih sub_recipe conn1
      apply (simp add: ingredient_items_def sub_recipe_items_def)
      done
  next
    case neither
    from Cons.prems have rest:
      "process_items resolve items (tmc, ings, subs) self = (Inr (tmc', ings', subs'), self')"
      unfolding process_items_neither [OF neither] .
    from Cons.IH [OF rest] neither show ?thesis
      by (simp add: ingredient_items_def sub_recipe_items_def)
  qed
qed






lemma snd_perform_all_Cons:
  "snd (perform_all self (c # cs)) = snd (perform_all (snd (perform c self)) cs)"
  by (simp split: prod.splits)






subsection \<open>Items with neither reference\<close>

lemma process_items_skip_anywhere:
  assumes "neither_item item"
  shows "process_items resolve (before @ item # after) acc self
           = process_items resolve (before @ after) acc self"
proof (induction before arbitrary: acc self)
  case Nil
  from assms show ?case
    by (simp add: neither_item_def process_items_neither)
next
  case (Cons b before)
  obtain tmc ings subs where acc: "acc = (tmc, ings, subs)"
    by (cases acc)
  show ?case
  proof (cases rule: item_cases [where item = b])
    case (ingredient i)
    show ?thesis
      unfolding acc append_Cons process_items_ingredient [OF ingredient]
      by (simp add: Cons.IH split: option.splits)
  next
    case (sub_recipe s)
    show ?thesis
      unfolding acc append_Cons process_items_sub_recipe [OF sub_recipe]
      by (simp add: Cons.IH split: prod.splits sum.splits)
  next
    case neither
    show ?thesis
      unfolding append_Cons process_items_neither [OF neither] by (rule Cons.IH)
  qed
qed

lemma on_database_execute [simp]:
  "execute q (on_database f self) = on_database f (execute q self)"
  by (simp add: on_database_def execute_def)

lemma on_database_simps [simp]:
  "conn (on_database f self) = f (conn self)"
  "recipe_cache (on_database f self) = recipe_cache self"
  "executed (on_database f self) = executed self"
  by (simp_all add: on_database_def)

lemma without_neither_items_simps [simp]:
  "ingredients (without_neither_items db) = ingredients db"
  "recipes (without_neither_items db) = recipes db"
  "packaging_types (without_neither_items db) = packaging_types db"
  "products (without_neither_items db) = products db"
  "recipe_items (without_neither_items db) r
     = filter (\<lambda>item. \<not> neither_item item) (recipe_items db r)"
  by (simp_all add: without_neither_items_def)

lemma process_items_without_neither:
  assumes "\<And>s sub. resolve (on_database without_neither_items s) sub
              = apsnd (on_database without_neither_items) (resolve s sub)"
  shows "process_items resolve (filter (\<lambda>item. \<not> neither_item item) items) acc
           (on_database without_neither_items self)
         = apsnd (on_database without_neither_items) (process_items resolve items acc self)"
proof (induction items arbitrary: acc self)
  case Nil
  show ?case by simp
next
  case (Cons item items)
  obtain tmc ings subs where acc: "acc = (tmc, ings, subs)"
    by (cases acc)
  show ?case
  proof (cases rule: item_cases [where item = item])
    case (ingredient i)
    then have keep: "\<not> neither_item item"
      by (simp add: neither_item_def)
    show ?thesis
      unfolding acc using keep
      by (simp add: process_items_ingredient [OF ingredient] Cons.IH split: option.splits)
  next
    case (sub_recipe s)
    then have keep: "\<not> neither_item item"
      by (simp add: neither_item_def)
    show ?thesis
      unfolding acc using keep
      by (simp add: process_items_sub_recipe [OF sub_recipe] assms Cons.IH
          split: prod.splits sum.splits)
  next
    case neither
    then have drop: "neither_item item"
      by (simp add: neither_item_def)
    show ?thesis
      using drop by (simp add: process_items_neither [OF neither] Cons.IH)
  qed
qed

lemma calculate_recipe_cost_without_neither:
  "calculate_recipe_cost (on_database without_neither_items self) recipe_id depth
     = apsnd (on_database without_neither_items) (calculate_recipe_cost self recipe_id depth)"
proof (induction self recipe_id depth rule: calculate_recipe_cost.induct)
  case (1 self recipe_id depth)
  let ?w = "on_database without_neither_items"
  show ?case
  proof (cases rule: calculate_recipe_cost_cases
      [where depth = depth and self = self and recipe_id = recipe_id])
    case guard
    then show ?thesis by (simp add: calculate_recipe_cost_guard)
  next
    case (cached v)
    then show ?thesis by (simp add: calculate_recipe_cost_cached)
  next
    case not_found
    then show ?thesis by (simp add: calculate_recipe_cost_not_found)
  next
    case (compute recipe)
    have ih: "\<And>s sub. calculate_recipe_cost (?w s) sub (depth + 1)
                = apsnd ?w (calculate_recipe_cost s sub (depth + 1))"
      using 1 [OF compute(1,2) refl _ refl refl] compute(3) by simp
    have c': "recipe_cache (?w self) recipe_id = None"
      "recipes (conn (?w self)) recipe_id = Some recipe"
      using compute by simp_all
    have upd: "?w s\<lparr>recipe_cache := c\<rparr> = (?w (s\<lparr>recipe_cache := c\<rparr>))" for s c
      by (simp add: on_database_def)
    show ?thesis
      unfolding calculate_recipe_cost_compute [OF compute]
        calculate_recipe_cost_compute [OF compute(1) c']
      using process_items_without_neither
        [of "\<lambda>s sub. calculate_recipe_cost s sub (depth + 1)", OF ih]
      by (simp add: upd split: prod.splits sum.splits)
  qed
qed

text \<open>
  Claim C10. An item whose \<open>ingredient_id\<close> and \<open>sub_recipe_id\<close> are both
  \<open>None\<close> or 0 is skipped: wherever it stands among the items, the loop gives the
  same result, lists, total and object with it as without it. Hence removing all such
  items from the database changes neither what \<open>calculate_recipe_cost\<close> returns or
  raises, nor the cache, nor the statements it executes.
\<close>

theorem neither_item_skipped:
  "(truthy_id (item_ingredient_id item) = None \<and> truthy_id (item_sub_recipe_id item) = None \<longrightarrow>
      process_items resolve (before @ item # after) acc self
        = process_items resolve (before @ after) acc self)
   \<and> calculate_recipe_cost (on_database without_neither_items self) recipe_id depth
       = apsnd (on_database without_neither_items) (calculate_recipe_cost self recipe_id depth)"
  using process_items_skip_anywhere [of item resolve before after acc self]
    calculate_recipe_cost_without_neither [of self recipe_id depth]
  by (simp add: neither_item_def)

theorem neither_item_skipped_witness:
  "truthy_id (item_ingredient_id
      \<lparr>item_ingredient_id = Some 0, item_sub_recipe_id = None, item_amount = 5\<rparr>) = None
   \<and> truthy_id (item_sub_recipe_id
      \<lparr>item_ingredient_id = Some 0, item_sub_recipe_id = None, item_amount = 5\<rparr>) = None
   \<and> process_items (\<lambda>s sub. calculate_recipe_cost s sub 1)
        [\<lparr>item_ingredient_id = Some 0, item_sub_recipe_id = None, item_amount = 5\<rparr>]
        (0, [], []) (init_calculator seed_db)
      = (Inr (0, [], []), init_calculator seed_db)"
  using neither_item_skipped
    [of "\<lparr>item_ingredient_id = Some 0, item_sub_recipe_id = None, item_amount = 5\<rparr>"
        "\<lambda>s sub. calculate_recipe_cost s sub 1" "[]" "[]" "(0, [], [])"
        "init_calculator seed_db"]
  by (simp add: truthy_id_def)

subsection \<open>The depth guard\<close>

lemma sub_recipe_items_Nil [simp]: "sub_recipe_items [] = []"
  by (simp add: sub_recipe_items_def)

lemma sub_recipe_items_ingredient:
  "truthy_id (item_ingredient_id item) = Some i \<Longrightarrow>
   sub_recipe_items (item # items) = sub_recipe_items items"
  by (simp add: sub_recipe_items_def)

lemma sub_recipe_items_sub_recipe:
  "truthy_id (item_ingredient_id item) = None \<Longrightarrow>
   truthy_id (item_sub_recipe_id item) = Some s \<Longrightarrow>
   sub_recipe_items (item # items) = (s, item_amount item) # sub_recipe_items items"
  by (simp add: sub_recipe_items_def)

lemma sub_recipe_items_neither:
  "truthy_id (item_ingredient_id item) = None \<Longrightarrow>
   truthy_id (item_sub_recipe_id item) = None \<Longrightarrow>
   sub_recipe_items (item # items) = sub_recipe_items items"
  by (simp add: sub_recipe_items_def)

lemma process_items_recursion_error:
  assumes "fst (process_items resolve items acc self) = Inl (RecursionError x)"
    and "\<And>s sub. conn (snd (resolve s sub)) = conn s"
  shows "\<exists>s self1. s \<in> fst ` set (sub_recipe_items items) \<and> conn self1 = conn self
           \<and> fst (resolve self1 s) = Inl (RecursionError x)"
  using assms(1)
proof (induction items arbitrary: acc self)
  case Nil
  then show ?case by simp
next
  case (Cons item items)
  obtain tmc ings subs where acc: "acc = (tmc, ings, subs)"
    by (cases acc)
  show ?case
  proof (cases rule: item_cases [where item = item])
    case (ingredient i)
    from Cons.prems obtain acc' where
      "fst (process_items resolve items acc' (execute (SelectIngredient i) self))
         = Inl (RecursionError x)"
      unfolding acc process_items_ingredient [OF ingredient]
      by (auto split: option.splits)
    from Cons.IH [OF this] show ?thesis
      by (simp add: sub_recipe_items_ingredient [OF ingredient])
  next
    case (sub_recipe s)
    obtain res self1 where r: "resolve self s = (res, self1)"
      by (cases "resolve self s")
    have c1: "conn self1 = conn self"
      using assms(2) [of self s] r by simp
    show ?thesis
    proof (cases res)
      case (Inl e)
      with Cons.prems r have "e = RecursionError x"
        unfolding acc process_items_sub_recipe [OF sub_recipe] by simp
      with Inl r have "fst (resolve self s) = Inl (RecursionError x)"
        by simp
      then show ?thesis
        unfolding sub_recipe_items_sub_recipe [OF sub_recipe] by force
    next
      case (Inr v)
      with Cons.prems r obtain acc' where
        "fst (process_items resolve items acc' self1) = Inl (RecursionError x)"
        unfolding acc process_items_sub_recipe [OF sub_recipe]
        by (auto split: prod.splits)
      from Cons.IH [OF this] c1 show ?thesis
        unfolding sub_recipe_items_sub_recipe [OF sub_recipe] by auto
    qed
  next
    case neither
    from Cons.prems have
      "fst (process_items resolve items acc self) = Inl (RecursionError x)"
      unfolding process_items_neither [OF neither] .
    from Cons.IH [OF this] show ?thesis
      by (simp add: sub_recipe_items_neither [OF neither])
  qed
qed

lemma recursion_error_origin:
  "\<not> 3 < depth \<Longrightarrow> fst (calculate_recipe_cost self recipe_id depth) = Inl (RecursionError x)
   \<Longrightarrow> hops (conn self) (nat (4 - depth)) recipe_id x"
proof (induction self recipe_id depth rule: calculate_recipe_cost.induct)
  case (1 self recipe_id depth)
  note d = \<open>\<not> 3 < depth\<close>
  note err = \<open>fst (calculate_recipe_cost self recipe_id depth) = Inl (RecursionError x)\<close>
  show ?case
  proof (cases rule: calculate_recipe_cost_cases
      [where depth = depth and self = self and recipe_id = recipe_id])
    case guard
    with d show ?thesis by simp
  next
    case (cached v)
    with err show ?thesis by (simp add: calculate_recipe_cost_cached)
  next
    case not_found
    with err show ?thesis by (simp add: calculate_recipe_cost_not_found)
  next
    case (compute recipe)
    let ?resolve = "\<lambda>s sub. calculate_recipe_cost s sub (depth + 1)"
    let ?self2 = "execute (SelectRecipeItems recipe_id) (execute (SelectRecipe recipe_id) self)"
    from err have "fst (process_items ?resolve (recipe_items (conn self) recipe_id)
                     (0, [], []) ?self2) = Inl (RecursionError x)"
      unfolding calculate_recipe_cost_compute [OF compute]
      by (auto split: prod.splits sum.splits)
    from process_items_recursion_error [OF this] calculate_recipe_cost_conn
    obtain s self1 where s: "s \<in> fst ` set (sub_recipe_items (recipe_items (conn self) recipe_id))"
      and c1: "conn self1 = conn self"
      and e1: "fst (calculate_recipe_cost self1 s (depth + 1)) = Inl (RecursionError x)"
      by auto
    have n: "nat (4 - depth) = Suc (nat (3 - depth))"
      using d by simp
    have "hops (conn self) (nat (3 - depth)) s x"
    proof (cases "3 < depth + 1")
      case True
      with d have "depth = 3" by simp
      moreover from True e1 have "x = s"
        by (simp add: calculate_recipe_cost_guard)
      ultimately show ?thesis by simp
    next
      case False
      from 1(1) [OF compute(1,2) refl _ refl refl False e1] compute(3) c1
      have "hops (conn self) (nat (4 - (depth + 1))) s x"
        by simp
      moreover have "4 - (depth + 1) = 3 - depth" by simp
      ultimately show ?thesis by simp
    qed
    with s compute(3) n show ?thesis
      by auto
  qed
qed

lemma single_reference:
  assumes "map (\<lambda>item. (truthy_id (item_ingredient_id item), truthy_id (item_sub_recipe_id item)))
             items = [(None, Some s)]"
  obtains item where "items = [item]" and "truthy_id (item_ingredient_id item) = None"
    and "truthy_id (item_sub_recipe_id item) = Some s"
  using assms by (cases items) auto

lemma chain_too_deep:
  assumes "reference_chain (conn self) rs"
    and "\<forall>r\<in>set rs. recipe_cache self r = None"
    and "\<not> 3 < depth"
    and "4 < int (length rs) + depth"
  shows "fst (calculate_recipe_cost self (hd rs) depth)
           = Inl (RecursionError (rs ! nat (4 - depth)))"
  using assms
proof (induction rs arbitrary: self depth)
  case Nil
  then show ?case by simp
next
  case (Cons r rs)
  from Cons.prems(3,4) obtain s rest where rs: "rs = s # rest"
    by (cases rs) auto
  from Cons.prems(1) obtain recipe where recipe: "recipes (conn self) r = Some recipe"
    unfolding rs by auto
  from Cons.prems(1) obtain item where items: "recipe_items (conn self) r = [item]"
    and item: "truthy_id (item_ingredient_id item) = None"
      "truthy_id (item_sub_recipe_id item) = Some s"
    unfolding rs by (auto elim: single_reference)
  from Cons.prems(1) have chain: "reference_chain (conn self) (s # rest)"
    unfolding rs by simp
  let ?self2 = "execute (SelectRecipeItems r) (execute (SelectRecipe r) self)"
  have cache: "recipe_cache self r = None"
    using Cons.prems(2) by simp
  have n: "nat (4 - depth) = Suc (nat (3 - depth))"
    using Cons.prems(3) by simp
  have sub: "fst (calculate_recipe_cost ?self2 s (depth + 1))
               = Inl (RecursionError ((s # rest) ! nat (3 - depth)))"
  proof (cases "3 < depth + 1")
    case True
    with Cons.prems(3) have "depth = 3" by simp
    with True show ?thesis
      by (simp add: calculate_recipe_cost_guard)
  next
    case False
    have "fst (calculate_recipe_cost ?self2 (hd (s # rest)) (depth + 1))
               = Inl (RecursionError ((s # rest) ! nat (4 - (depth + 1))))"
      using chain Cons.prems(2,4) False
      by (intro Cons.IH [unfolded rs]) (simp_all add: rs)
    moreover have "4 - (depth + 1) = 3 - depth" by simp
    ultimately show ?thesis by simp
  qed
  obtain res self3 where r: "calculate_recipe_cost ?self2 s (depth + 1) = (res, self3)"
    by (cases "calculate_recipe_cost ?self2 s (depth + 1)")
  show ?case
    using sub r
    unfolding list.sel calculate_recipe_cost_compute [OF Cons.prems(3) cache recipe] items
      process_items_sub_recipe [OF item] n rs
    by (simp split: sum.splits)
qed

lemma chain_fits:
  assumes "reference_chain (conn self) rs"
    and "\<forall>r\<in>set rs. recipe_cache self r = None"
    and "int (length rs) + depth \<le> 4"
  shows "\<exists>result. fst (calculate_recipe_cost self (hd rs) depth) = Inr result"
  using assms
proof (induction rs arbitrary: self depth)
  case Nil
  then show ?case by simp
next
  case (Cons r rs)
  have d: "\<not> 3 < depth"
    using Cons.prems(3) by simp
  have cache: "recipe_cache self r = None"
    using Cons.prems(2) by simp
  let ?self2 = "execute (SelectRecipeItems r) (execute (SelectRecipe r) self)"
  show ?case
  proof (cases rs)
    case Nil
    with Cons.prems(1) obtain recipe where recipe: "recipes (conn self) r = Some recipe"
      and items: "recipe_items (conn self) r = []"
      by auto
    show ?thesis
      unfolding list.sel calculate_recipe_cost_compute [OF d cache recipe] items
      by simp
  next
    case (Cons s rest)
    note rs = this
    from Cons.prems(1) obtain recipe where recipe: "recipes (conn self) r = Some recipe"
      unfolding rs by auto
    from Cons.prems(1) obtain item where items: "recipe_items (conn self) r = [item]"
      and item: "truthy_id (item_ingredient_id item) = None"
        "truthy_id (item_sub_recipe_id item) = Some s"
      unfolding rs by (auto elim: single_reference)
    from Cons.prems(1) have chain: "reference_chain (conn self) (s # rest)"
      unfolding rs by simp
    have "\<exists>result. fst (calculate_recipe_cost ?self2 (hd (s # rest)) (depth + 1)) = Inr result"
      using chain Cons.prems(2,3)
      by (intro Cons.IH [unfolded rs]) (simp_all add: rs)
    then obtain c det self3 where
      "calculate_recipe_cost ?self2 s (depth + 1) = (Inr (c, det), self3)"
      by (cases "calculate_recipe_cost ?self2 s (depth + 1)") auto
    then show ?thesis
      unfolding list.sel calculate_recipe_cost_compute [OF d cache recipe] items
        process_items_sub_recipe [OF item]
      by simp
  qed
qed

text \<open>
  Claim C2. A call with \<open>depth > 3\<close> raises the depth error naming its own recipe,
  whatever the cache and the database hold, and changes nothing. A call with
  \<open>depth \<le> 3\<close> does not raise it by itself: if the error surfaces from such a call,
  it names a recipe reached by \<open>4 - depth\<close> sub-recipe hops, that is, it was raised
  by a recursive call whose depth is 4. On a fresh calculator a chain of references
  (each recipe made of the next one only) that is five or more levels deep raises the
  error, naming the fifth recipe, and a chain of at most four levels returns a result:
  nothing is cut off silently.
\<close>

theorem depth_guard:
  "(3 < depth \<longrightarrow>
      calculate_recipe_cost self recipe_id depth = (Inl (RecursionError recipe_id), self))
   \<and> (\<not> 3 < depth \<longrightarrow>
        fst (calculate_recipe_cost self recipe_id depth) = Inl (RecursionError x) \<longrightarrow>
        hops (conn self) (nat (4 - depth)) recipe_id x)
   \<and> (reference_chain db rs \<longrightarrow> 5 \<le> length rs \<longrightarrow>
        fst (calculate_recipe_cost (init_calculator db) (hd rs) 0)
          = Inl (RecursionError (rs ! 4)))
   \<and> (reference_chain db rs \<longrightarrow> length rs \<le> 4 \<longrightarrow>
        (\<exists>result. fst (calculate_recipe_cost (init_calculator db) (hd rs) 0) = Inr result))"
proof (intro conjI impI)
  assume "3 < depth"
  then show "calculate_recipe_cost self recipe_id depth = (Inl (RecursionError recipe_id), self)"
    by (rule calculate_recipe_cost_guard)
next
  assume "\<not> 3 < depth"
    and "fst (calculate_recipe_cost self recipe_id depth) = Inl (RecursionError x)"
  then show "hops (conn self) (nat (4 - depth)) recipe_id x"
    by (rule recursion_error_origin)
next
  assume "reference_chain db rs" and "5 \<le> length rs"
  then show "fst (calculate_recipe_cost (init_calculator db) (hd rs) 0)
          = Inl (RecursionError (rs ! 4))"
    using chain_too_deep [of "init_calculator db" rs 0]
    by (simp add: init_calculator_def)
next
  assume "reference_chain db rs" and "length rs \<le> 4"
  then show "\<exists>result. fst (calculate_recipe_cost (init_calculator db) (hd rs) 0) = Inr result"
    using chain_fits [of "init_calculator db" rs 0]
    by (simp add: init_calculator_def)
qed

lemma chain_db_5: "reference_chain chain_db [1, 2, 3, 4, 5]"
  by (simp add: chain_db_def truthy_id_def)

lemma chain_db_4: "reference_chain chain_db [2, 3, 4, 5]"
  by (simp add: chain_db_def truthy_id_def)

theorem depth_guard_witness:
  "calculate_recipe_cost (init_calculator chain_db) 1 4
     = (Inl (RecursionError 1), init_calculator chain_db)
   \<and> reference_chain chain_db [1, 2, 3, 4, 5]
   \<and> fst (calculate_recipe_cost (init_calculator chain_db) 1 0) = Inl (RecursionError 5)
   \<and> hops chain_db 4 1 5
   \<and> reference_chain chain_db [2, 3, 4, 5]
   \<and> (\<exists>result. fst (calculate_recipe_cost (init_calculator chain_db) 2 0) = Inr result)"
proof -
  have e: "fst (calculate_recipe_cost (init_calculator chain_db) 1 0) = Inl (RecursionError 5)"
    using depth_guard [of 0 "init_calculator chain_db" 1 5 chain_db "[1, 2, 3, 4, 5]"] chain_db_5
    by simp
  have h: "hops chain_db 4 1 5"
    using depth_guard [of 0 "init_calculator chain_db" 1 5 chain_db "[1, 2, 3, 4, 5]"] e
    by (simp add: init_calculator_def)
  have g: "calculate_recipe_cost (init_calculator chain_db) 1 4
     = (Inl (RecursionError 1), init_calculator chain_db)"
    using depth_guard [of 4 "init_calculator chain_db" 1 5 chain_db "[1, 2, 3, 4, 5]"]
    by simp
  have s: "\<exists>result. fst (calculate_recipe_cost (init_calculator chain_db) 2 0) = Inr result"
    using depth_guard [of 0 "init_calculator chain_db" 2 5 chain_db "[2, 3, 4, 5]"] chain_db_4
    by simp
  from e h g s chain_db_5 chain_db_4 show ?thesis by blast
qed

subsection \<open>The cache only grows\<close>

lemma process_items_cache_kept:
  assumes "\<And>s sub. recipe_cache s x = Some v \<Longrightarrow> recipe_cache (snd (resolve s sub)) x = Some v"
    and "recipe_cache self x = Some v"
  shows "recipe_cache (snd (process_items resolve items acc self)) x = Some v"
  using assms(2)
proof (induction items arbitrary: acc self)
  case Nil
  then show ?case by simp
next
  case (Cons item items)
  obtain tmc ings subs where acc: "acc = (tmc, ings, subs)"
    by (cases acc)
  show ?case
  proof (cases rule: item_cases [where item = item])
    case (ingredient i)
    show ?thesis
      unfolding acc process_items_ingredient [OF ingredient]
      using Cons.prems by (simp add: Cons.IH split: option.splits)
  next
    case (sub_recipe s)
    show ?thesis
      using assms(1) [of self s] Cons.prems
      unfolding acc process_items_sub_recipe [OF sub_recipe]
      by (auto simp: Cons.IH split: prod.splits sum.splits)
  next
    case neither
    show ?thesis
      unfolding process_items_neither [OF neither] using Cons.prems by (rule Cons.IH)
  qed
qed

lemma calculate_recipe_cost_cache_kept:
  "recipe_cache self x = Some v \<Longrightarrow>
   recipe_cache (snd (calculate_recipe_cost self recipe_id depth)) x = Some v"
proof (induction self recipe_id depth rule: calculate_recipe_cost.induct)
  case (1 self recipe_id depth)
  note x = \<open>recipe_cache self x = Some v\<close>
  show ?case
  proof (cases rule: calculate_recipe_cost_cases
      [where depth = depth and self = self and recipe_id = recipe_id])
    case guard
    with x show ?thesis by (simp add: calculate_recipe_cost_guard)
  next
    case (cached c)
    with x show ?thesis by (simp add: calculate_recipe_cost_cached)
  next
    case not_found
    with x show ?thesis by (simp add: calculate_recipe_cost_not_found)
  next
    case (compute recipe)
    let ?resolve = "\<lambda>s sub. calculate_recipe_cost s sub (depth + 1)"
    let ?self2 = "execute (SelectRecipeItems recipe_id) (execute (SelectRecipe recipe_id) self)"
    have ih: "\<And>s sub. recipe_cache s x = Some v \<Longrightarrow>
                recipe_cache (snd (?resolve s sub)) x = Some v"
      using 1(1) [OF compute(1,2) refl _ refl refl] compute(3) by simp
    have "recipe_cache (snd (process_items ?resolve (recipe_items (conn self) recipe_id)
            (0, [], []) ?self2)) x = Some v"
      using x by (intro process_items_cache_kept ih) simp_all
    moreover have "x \<noteq> recipe_id"
      using x compute(2) by auto
    ultimately show ?thesis
      unfolding calculate_recipe_cost_compute [OF compute]
      by (auto split: prod.splits sum.splits)
  qed
qed

lemma cache_kept:
  assumes "calculate_recipe_cost self recipe_id depth = (res, self')"
    and "recipe_cache self x = Some v"
  shows "recipe_cache self' x = Some v"
  using calculate_recipe_cost_cache_kept [OF assms(2), of recipe_id depth] assms(1) by simp

lemma result_is_cached:
  assumes "calculate_recipe_cost self recipe_id depth = (Inr result, self')"
  shows "recipe_cache self' recipe_id = Some result"
proof (cases rule: calculate_recipe_cost_cases
    [where depth = depth and self = self and recipe_id = recipe_id])
  case guard
  with assms show ?thesis by (simp add: calculate_recipe_cost_guard)
next
  case (cached c)
  with assms show ?thesis by (simp add: calculate_recipe_cost_cached)
next
  case not_found
  with assms show ?thesis by (simp add: calculate_recipe_cost_not_found)
next
  case (compute recipe)
  from assms show ?thesis
    unfolding calculate_recipe_cost_compute [OF compute]
    by (auto split: prod.splits sum.splits)
qed

subsection \<open>No result for a recipe that needs itself\<close>

text \<open>
  A set of uncached recipes each of which has a sub-recipe in the set cannot be
  entered: no call on a member returns, and no member gets cached.
\<close>

lemma process_items_closed_set:
  assumes resolve: "\<And>s sub v s'. conn s = db \<Longrightarrow> \<forall>a\<in>A. recipe_cache s a = None \<Longrightarrow>
      resolve s sub = (Inr v, s') \<Longrightarrow> sub \<notin> A \<and> (\<forall>a\<in>A. recipe_cache s' a = None)"
    and conn: "\<And>s sub. conn (snd (resolve s sub)) = conn s"
    and "conn self = db"
    and "\<forall>a\<in>A. recipe_cache self a = None"
    and "process_items resolve items acc self = (Inr acc', self')"
  shows "(\<forall>a\<in>A. recipe_cache self' a = None)
         \<and> fst ` set (sub_recipe_items items) \<inter> A = {}"
  using assms(3-)
proof (induction items arbitrary: acc self)
  case Nil
  then show ?case by simp
next
  case (Cons item items)
  obtain tmc ings subs where acc: "acc = (tmc, ings, subs)"
    by (cases acc)
  show ?case
  proof (cases rule: item_cases [where item = item])
    case (ingredient i)
    from Cons.prems(3) obtain acc1 where
      "process_items resolve items acc1 (execute (SelectIngredient i) self) = (Inr acc', self')"
      unfolding acc process_items_ingredient [OF ingredient]
      by (auto split: option.splits)
    from Cons.IH [OF _ _ this] Cons.prems(1,2) show ?thesis
      by (simp add: sub_recipe_items_ingredient [OF ingredient])
  next
    case (sub_recipe s)
    from Cons.prems(3) obtain v self1 acc1 where r: "resolve self s = (Inr v, self1)"
      and rest: "process_items resolve items acc1 self1 = (Inr acc', self')"
      unfolding acc process_items_sub_recipe [OF sub_recipe]
      by (auto split: prod.splits sum.splits)
    from resolve [OF Cons.prems(1,2) r] have s: "s \<notin> A"
      and c1: "\<forall>a\<in>A. recipe_cache self1 a = None"
      by auto
    have "conn self1 = db"
      using conn [of self s] r Cons.prems(1) by simp
    from Cons.IH [OF this c1 rest] s show ?thesis
      by (simp add: sub_recipe_items_sub_recipe [OF sub_recipe])
  next
    case neither
    from Cons.prems(3) have "process_items resolve items acc self = (Inr acc', self')"
      unfolding process_items_neither [OF neither] .
    from Cons.IH [OF Cons.prems(1,2) this] show ?thesis
      by (simp add: sub_recipe_items_neither [OF neither])
  qed
qed

lemma closed_set_not_entered:
  assumes "\<forall>a\<in>A. sub_recipe_ids db a \<inter> A \<noteq> {}"
  shows "conn self = db \<Longrightarrow> \<forall>a\<in>A. recipe_cache self a = None \<Longrightarrow>
    calculate_recipe_cost self recipe_id depth = (Inr v, self') \<Longrightarrow>
    recipe_id \<notin> A \<and> (\<forall>a\<in>A. recipe_cache self' a = None)"
proof (induction self recipe_id depth arbitrary: v self' rule: calculate_recipe_cost.induct)
  case (1 self recipe_id depth)
  note db = \<open>conn self = db\<close>
  note A = \<open>\<forall>a\<in>A. recipe_cache self a = None\<close>
  note ok = \<open>calculate_recipe_cost self recipe_id depth = (Inr v, self')\<close>
  show ?case
  proof (cases rule: calculate_recipe_cost_cases
      [where depth = depth and self = self and recipe_id = recipe_id])
    case guard
    with ok show ?thesis by (simp add: calculate_recipe_cost_guard)
  next
    case (cached c)
    with ok A show ?thesis by (auto simp: calculate_recipe_cost_cached)
  next
    case not_found
    with ok show ?thesis by (simp add: calculate_recipe_cost_not_found)
  next
    case (compute recipe)
    let ?resolve = "\<lambda>s sub. calculate_recipe_cost s sub (depth + 1)"
    let ?self2 = "execute (SelectRecipeItems recipe_id) (execute (SelectRecipe recipe_id) self)"
    from ok obtain acc' self3 where
      loop: "process_items ?resolve (recipe_items (conn self) recipe_id) (0, [], []) ?self2
               = (Inr acc', self3)"
      and self': "self' = self3\<lparr>recipe_cache :=
           (recipe_cache self3)(recipe_id \<mapsto> recipe_result_of recipe acc')\<rparr>"
      unfolding calculate_recipe_cost_compute [OF compute]
      by (auto split: prod.splits sum.splits)
    have rec: "recipes (conn (execute (SelectRecipe recipe_id) self)) recipe_id = Some recipe"
      using compute(3) by simp
    note ih = 1(1) [OF compute(1,2) refl rec refl refl]
    have "(\<forall>a\<in>A. recipe_cache self3 a = None)
         \<and> fst ` set (sub_recipe_items (recipe_items (conn self) recipe_id)) \<inter> A = {}"
    proof (rule process_items_closed_set
        [where resolve = ?resolve and db = db and A = A, OF _ _ _ _ loop])
      fix s sub v s'
      assume "conn s = db" "\<forall>a\<in>A. recipe_cache s a = None" "?resolve s sub = (Inr v, s')"
      then show "sub \<notin> A \<and> (\<forall>a\<in>A. recipe_cache s' a = None)"
        by (rule ih)
    qed (use A db in \<open>simp_all add: calculate_recipe_cost_conn\<close>)
    then have c3: "\<forall>a\<in>A. recipe_cache self3 a = None"
      and none: "sub_recipe_ids db recipe_id \<inter> A = {}"
      using compute(3) db by (simp_all add: sub_recipe_ids_def)
    from none assms have "recipe_id \<notin> A"
      by blast
    with c3 show ?thesis
      by (auto simp: self')
  qed
qed

lemma process_items_newly_cached:
  assumes resolve: "\<And>s sub v s'. conn s = db \<Longrightarrow> C \<subseteq> dom (recipe_cache s) \<Longrightarrow>
      resolve s sub = (Inr v, s') \<Longrightarrow> recipe_cache s x = None \<Longrightarrow> recipe_cache s' x \<noteq> None \<Longrightarrow>
      sub \<notin> C \<and> (sub, x) \<in> (uncached_edges db C)\<^sup>*"
    and conn: "\<And>s sub. conn (snd (resolve s sub)) = conn s"
    and kept: "\<And>s sub y v. recipe_cache s y = Some v \<Longrightarrow>
      recipe_cache (snd (resolve s sub)) y = Some v"
    and "conn self = db"
    and "C \<subseteq> dom (recipe_cache self)"
    and "process_items resolve items acc self = (Inr acc', self')"
    and "recipe_cache self x = None"
    and "recipe_cache self' x \<noteq> None"
  shows "\<exists>t \<in> fst ` set (sub_recipe_items items). t \<notin> C \<and> (t, x) \<in> (uncached_edges db C)\<^sup>*"
  using assms(4-)
proof (induction items arbitrary: acc self)
  case Nil
  then show ?case by simp
next
  case (Cons item items)
  obtain tmc ings subs where acc: "acc = (tmc, ings, subs)"
    by (cases acc)
  show ?case
  proof (cases rule: item_cases [where item = item])
    case (ingredient i)
    from Cons.prems(3) obtain acc1 where
      "process_items resolve items acc1 (execute (SelectIngredient i) self) = (Inr acc', self')"
      unfolding acc process_items_ingredient [OF ingredient]
      by (auto split: option.splits)
    from Cons.IH [OF _ _ this] Cons.prems(1,2,4,5) show ?thesis
      by (simp add: sub_recipe_items_ingredient [OF ingredient])
  next
    case (sub_recipe s)
    from Cons.prems(3) obtain v self1 acc1 where r: "resolve self s = (Inr v, self1)"
      and rest: "process_items resolve items acc1 self1 = (Inr acc', self')"
      unfolding acc process_items_sub_recipe [OF sub_recipe]
      by (auto split: prod.splits sum.splits)
    show ?thesis
    proof (cases "recipe_cache self1 x")
      case (Some y)
      with resolve [OF Cons.prems(1,2) r Cons.prems(4)]
      show ?thesis
        by (simp add: sub_recipe_items_sub_recipe [OF sub_recipe])
    next
      case None
      have db1: "conn self1 = db"
        using conn [of self s] r Cons.prems(1) by simp
      have "C \<subseteq> dom (recipe_cache self1)"
        using kept [of self _ _ s] r Cons.prems(2) by fastforce
      from Cons.IH [OF db1 this rest None Cons.prems(5)] show ?thesis
        by (simp add: sub_recipe_items_sub_recipe [OF sub_recipe])
    qed
  next
    case neither
    from Cons.prems(3) have "process_items resolve items acc self = (Inr acc', self')"
      unfolding process_items_neither [OF neither] .
    from Cons.IH [OF Cons.prems(1,2) this Cons.prems(4,5)] show ?thesis
      by (simp add: sub_recipe_items_neither [OF neither])
  qed
qed

lemma newly_cached_reachable:
  "conn self = db \<Longrightarrow> C \<subseteq> dom (recipe_cache self) \<Longrightarrow>
   calculate_recipe_cost self recipe_id depth = (Inr v, self') \<Longrightarrow>
   recipe_cache self x = None \<Longrightarrow> recipe_cache self' x \<noteq> None \<Longrightarrow>
   recipe_id \<notin> C \<and> (recipe_id, x) \<in> (uncached_edges db C)\<^sup>*"
proof (induction self recipe_id depth arbitrary: v self' rule: calculate_recipe_cost.induct)
  case (1 self recipe_id depth)
  note db = \<open>conn self = db\<close>
  note C = \<open>C \<subseteq> dom (recipe_cache self)\<close>
  note ok = \<open>calculate_recipe_cost self recipe_id depth = (Inr v, self')\<close>
  note x = \<open>recipe_cache self x = None\<close>
  note x' = \<open>recipe_cache self' x \<noteq> None\<close>
  show ?case
  proof (cases rule: calculate_recipe_cost_cases
      [where depth = depth and self = self and recipe_id = recipe_id])
    case guard
    with ok show ?thesis by (simp add: calculate_recipe_cost_guard)
  next
    case (cached c)
    with ok x x' show ?thesis by (auto simp: calculate_recipe_cost_cached)
  next
    case not_found
    with ok show ?thesis by (simp add: calculate_recipe_cost_not_found)
  next
    case (compute recipe)
    let ?resolve = "\<lambda>s sub. calculate_recipe_cost s sub (depth + 1)"
    let ?self2 = "execute (SelectRecipeItems recipe_id) (execute (SelectRecipe recipe_id) self)"
    from ok obtain acc' self3 where
      loop: "process_items ?resolve (recipe_items (conn self) recipe_id) (0, [], []) ?self2
               = (Inr acc', self3)"
      and self': "self' = self3\<lparr>recipe_cache :=
           (recipe_cache self3)(recipe_id \<mapsto> recipe_result_of recipe acc')\<rparr>"
      unfolding calculate_recipe_cost_compute [OF compute]
      by (auto split: prod.splits sum.splits)
    have rec: "recipes (conn (execute (SelectRecipe recipe_id) self)) recipe_id = Some recipe"
      using compute(3) by simp
    note ih = 1(1) [OF compute(1,2) refl rec refl refl]
    have r: "recipe_id \<notin> C"
      using C compute(2) by auto
    show ?thesis
    proof (cases "x = recipe_id")
      case True
      with r show ?thesis by simp
    next
      case False
      with x' have x3: "recipe_cache self3 x \<noteq> None"
        by (simp add: self')
      have "\<exists>t \<in> fst ` set (sub_recipe_items (recipe_items (conn self) recipe_id)).
              t \<notin> C \<and> (t, x) \<in> (uncached_edges db C)\<^sup>*"
      proof (rule process_items_newly_cached
          [where resolve = ?resolve and db = db and C = C and x = x, OF _ _ _ _ _ loop _ x3])
        fix s sub v s'
        assume "conn s = db" "C \<subseteq> dom (recipe_cache s)" "?resolve s sub = (Inr v, s')"
          "recipe_cache s x = None" "recipe_cache s' x \<noteq> None"
        then show "sub \<notin> C \<and> (sub, x) \<in> (uncached_edges db C)\<^sup>*"
          by (rule ih)
      qed (use db C x in \<open>simp_all add: calculate_recipe_cost_conn
            calculate_recipe_cost_cache_kept\<close>)
      then obtain t where t: "t \<in> sub_recipe_ids db recipe_id" "t \<notin> C"
        "(t, x) \<in> (uncached_edges db C)\<^sup>*"
        using compute(3) db by (auto simp: sub_recipe_ids_def)
      with r have "(recipe_id, t) \<in> uncached_edges db C"
        by (simp add: uncached_edges_def)
      with t(3) r show ?thesis
        by (blast intro: converse_rtrancl_into_rtrancl)
    qed
  qed
qed

text \<open>While a recipe is being computed, the calls made for its items do not cache it.\<close>

lemma not_cached_by_own_items:
  assumes d: "\<not> 3 < depth"
    and c: "recipe_cache self recipe_id = None"
    and rec: "recipes (conn self) recipe_id = Some recipe"
    and loop: "process_items (\<lambda>s sub. calculate_recipe_cost s sub (depth + 1))
        (recipe_items (conn self) recipe_id) (0, [], [])
        (execute (SelectRecipeItems recipe_id) (execute (SelectRecipe recipe_id) self))
      = (Inr acc', self3)"
  shows "recipe_cache self3 recipe_id = None"
proof (rule ccontr)
  assume cached: "recipe_cache self3 recipe_id \<noteq> None"
  let ?resolve = "\<lambda>s sub. calculate_recipe_cost s sub (depth + 1)"
  let ?db = "conn self"
  let ?C = "dom (recipe_cache self)"
  let ?E = "uncached_edges ?db ?C"
  let ?A = "{x. x \<notin> ?C \<and> (x, recipe_id) \<in> ?E\<^sup>*}"
  have "\<exists>t \<in> fst ` set (sub_recipe_items (recipe_items ?db recipe_id)).
          t \<notin> ?C \<and> (t, recipe_id) \<in> ?E\<^sup>*"
  proof (rule process_items_newly_cached
      [where resolve = ?resolve and db = ?db and C = ?C and x = recipe_id,
        OF _ _ _ _ _ loop _ cached])
    fix s sub v s'
    assume "conn s = ?db" "?C \<subseteq> dom (recipe_cache s)" "?resolve s sub = (Inr v, s')"
      "recipe_cache s recipe_id = None" "recipe_cache s' recipe_id \<noteq> None"
    then show "sub \<notin> ?C \<and> (sub, recipe_id) \<in> ?E\<^sup>*"
      by (rule newly_cached_reachable)
  qed (use c in \<open>simp_all add: calculate_recipe_cost_conn calculate_recipe_cost_cache_kept\<close>)
  then obtain t where t: "t \<in> sub_recipe_ids ?db recipe_id" "t \<in> ?A"
    using rec by (auto simp: sub_recipe_ids_def)
  have closed: "\<forall>a\<in>?A. sub_recipe_ids ?db a \<inter> ?A \<noteq> {}"
  proof
    fix a assume a: "a \<in> ?A"
    show "sub_recipe_ids ?db a \<inter> ?A \<noteq> {}"
    proof (cases "a = recipe_id")
      case True
      with t show ?thesis by blast
    next
      case False
      from a have "(a, recipe_id) \<in> ?E\<^sup>*" by simp
      with False obtain b where "(a, b) \<in> ?E" "(b, recipe_id) \<in> ?E\<^sup>*"
        by (auto elim: converse_rtranclE)
      then have "b \<in> sub_recipe_ids ?db a" "b \<in> ?A"
        by (simp_all add: uncached_edges_def)
      then show ?thesis by blast
    qed
  qed
  have uncached: "\<forall>a\<in>?A. recipe_cache self a = None"
    by auto
  have call: "calculate_recipe_cost self recipe_id depth =
      (Inr (recipe_result_of recipe acc'),
       self3\<lparr>recipe_cache := (recipe_cache self3)(recipe_id \<mapsto> recipe_result_of recipe acc')\<rparr>)"
    unfolding calculate_recipe_cost_compute [OF d c rec] loop by simp
  from closed_set_not_entered [OF closed refl uncached call]
  have "recipe_id \<notin> ?A" by simp
  moreover have "recipe_id \<in> ?A"
    using c by auto
  ultimately show False by simp
qed

subsection \<open>Each recipe is looked up once\<close>

lemma fresh_lookups_refl: "fresh_lookups s s"
  by (simp add: fresh_lookups_def)

lemma fresh_lookups_ingredient: "fresh_lookups s (execute (SelectIngredient i) s)"
  unfolding fresh_lookups_def
  by (rule exI [of _ "[SelectIngredient i]"]) (auto simp: recipe_queries_def)

lemma fresh_lookups_trans:
  assumes ab: "fresh_lookups a b" and bc: "fresh_lookups b c"
    and kept_ab: "\<And>y v. recipe_cache a y = Some v \<Longrightarrow> recipe_cache b y = Some v"
    and kept_bc: "\<And>y v. recipe_cache b y = Some v \<Longrightarrow> recipe_cache c y = Some v"
  shows "fresh_lookups a c"
proof -
  from ab obtain n1 where n1: "executed b = executed a @ n1"
    and p1: "\<And>q y. q \<in> recipe_queries y \<Longrightarrow> count_list n1 q \<le> 1"
    and m1: "\<And>q y. q \<in> recipe_queries y \<Longrightarrow> q \<in> set n1 \<Longrightarrow>
               recipe_cache a y = None \<and> recipe_cache b y \<noteq> None"
    unfolding fresh_lookups_def by blast
  from bc obtain n2 where n2: "executed c = executed b @ n2"
    and p2: "\<And>q y. q \<in> recipe_queries y \<Longrightarrow> count_list n2 q \<le> 1"
    and m2: "\<And>q y. q \<in> recipe_queries y \<Longrightarrow> q \<in> set n2 \<Longrightarrow>
               recipe_cache b y = None \<and> recipe_cache c y \<noteq> None"
    unfolding fresh_lookups_def by blast
  have "count_list (n1 @ n2) q \<le> 1
      \<and> (q \<in> set (n1 @ n2) \<longrightarrow> recipe_cache a y = None \<and> recipe_cache c y \<noteq> None)"
    if q: "q \<in> recipe_queries y" for q y
  proof (cases "q \<in> set n1")
    case True
    with m1 [OF q] have a: "recipe_cache a y = None" and b: "recipe_cache b y \<noteq> None"
      by simp_all
    from b m2 [OF q] have "q \<notin> set n2" by auto
    then have "count_list n2 q = 0" by simp
    moreover from b kept_bc have "recipe_cache c y \<noteq> None" by auto
    ultimately show ?thesis using p1 [OF q] a by simp
  next
    case False
    then have z: "count_list n1 q = 0" by simp
    have "recipe_cache a y = None \<and> recipe_cache c y \<noteq> None" if "q \<in> set n2"
    proof -
      from m2 [OF q that] have b: "recipe_cache b y = None" and c: "recipe_cache c y \<noteq> None"
        by simp_all
      from b kept_ab have "recipe_cache a y = None"
        by (cases "recipe_cache a y") auto
      with c show ?thesis by simp
    qed
    with z p2 [OF q] False show ?thesis by simp
  qed
  then show ?thesis
    unfolding fresh_lookups_def
    by (intro exI [of _ "n1 @ n2"]) (simp add: n1 n2)
qed

lemma process_items_fresh_lookups:
  assumes resolve: "\<And>s sub v s'. resolve s sub = (Inr v, s') \<Longrightarrow> fresh_lookups s s'"
    and kept: "\<And>s sub y v. recipe_cache s y = Some v \<Longrightarrow>
      recipe_cache (snd (resolve s sub)) y = Some v"
    and "process_items resolve items acc self = (Inr acc', self')"
  shows "fresh_lookups self self'"
  using assms(3)
proof (induction items arbitrary: acc self)
  case Nil
  then show ?case by (simp add: fresh_lookups_refl)
next
  case (Cons item items)
  obtain tmc ings subs where acc: "acc = (tmc, ings, subs)"
    by (cases acc)
  have kept_loop: "recipe_cache s' y = Some v"
    if "process_items resolve its a s = (r, s')" "recipe_cache s y = Some v" for its a s r s' y v
    using process_items_cache_kept [where resolve = resolve, OF kept that(2), of its a] that(1)
    by simp
  show ?case
  proof (cases rule: item_cases [where item = item])
    case (ingredient i)
    from Cons.prems obtain acc1 where rest:
      "process_items resolve items acc1 (execute (SelectIngredient i) self) = (Inr acc', self')"
      unfolding acc process_items_ingredient [OF ingredient]
      by (auto split: option.splits)
    show ?thesis
      by (rule fresh_lookups_trans [OF fresh_lookups_ingredient Cons.IH [OF rest]])
        (simp, erule kept_loop [OF rest])
  next
    case (sub_recipe s)
    from Cons.prems obtain v self1 acc1 where r: "resolve self s = (Inr v, self1)"
      and rest: "process_items resolve items acc1 self1 = (Inr acc', self')"
      unfolding acc process_items_sub_recipe [OF sub_recipe]
      by (auto split: prod.splits sum.splits)
    have k1: "recipe_cache self1 y = Some w" if "recipe_cache self y = Some w" for y w
      using kept [OF that, of s] r by simp
    show ?thesis
      by (rule fresh_lookups_trans [OF resolve [OF r] Cons.IH [OF rest]])
        (erule k1, erule kept_loop [OF rest])
  next
    case neither
    from Cons.prems have "process_items resolve items acc self = (Inr acc', self')"
      unfolding process_items_neither [OF neither] .
    then show ?thesis by (rule Cons.IH)
  qed
qed

lemma calculate_recipe_cost_fresh_lookups:
  "calculate_recipe_cost self recipe_id depth = (Inr v, self') \<Longrightarrow> fresh_lookups self self'"
proof (induction self recipe_id depth arbitrary: v self' rule: calculate_recipe_cost.induct)
  case (1 self recipe_id depth)
  note ok = \<open>calculate_recipe_cost self recipe_id depth = (Inr v, self')\<close>
  show ?case
  proof (cases rule: calculate_recipe_cost_cases
      [where depth = depth and self = self and recipe_id = recipe_id])
    case guard
    with ok show ?thesis by (simp add: calculate_recipe_cost_guard)
  next
    case (cached c)
    with ok show ?thesis by (auto simp: calculate_recipe_cost_cached fresh_lookups_refl)
  next
    case not_found
    with ok show ?thesis by (simp add: calculate_recipe_cost_not_found)
  next
    case (compute recipe)
    let ?resolve = "\<lambda>s sub. calculate_recipe_cost s sub (depth + 1)"
    let ?self2 = "execute (SelectRecipeItems recipe_id) (execute (SelectRecipe recipe_id) self)"
    from ok obtain acc' self3 where
      loop: "process_items ?resolve (recipe_items (conn self) recipe_id) (0, [], []) ?self2
               = (Inr acc', self3)"
      and self': "self' = self3\<lparr>recipe_cache :=
           (recipe_cache self3)(recipe_id \<mapsto> recipe_result_of recipe acc')\<rparr>"
      unfolding calculate_recipe_cost_compute [OF compute]
      by (auto split: prod.splits sum.splits)
    have rec: "recipes (conn (execute (SelectRecipe recipe_id) self)) recipe_id = Some recipe"
      using compute(3) by simp
    note ih = 1(1) [OF compute(1,2) refl rec refl refl]
    have "fresh_lookups ?self2 self3"
    proof (rule process_items_fresh_lookups [where resolve = ?resolve, OF _ _ loop])
      fix s sub v s'
      assume "?resolve s sub = (Inr v, s')"
      then show "fresh_lookups s s'" by (rule ih)
    qed (simp add: calculate_recipe_cost_cache_kept)
    then obtain new where new: "executed self3 = executed ?self2 @ new"
      and p: "\<And>q y. q \<in> recipe_queries y \<Longrightarrow> count_list new q \<le> 1"
      and m: "\<And>q y. q \<in> recipe_queries y \<Longrightarrow> q \<in> set new \<Longrightarrow>
               recipe_cache ?self2 y = None \<and> recipe_cache self3 y \<noteq> None"
      unfolding fresh_lookups_def by blast
    have own: "recipe_cache self3 recipe_id = None"
      by (rule not_cached_by_own_items [OF compute loop])
    let ?new = "[SelectRecipe recipe_id, SelectRecipeItems recipe_id] @ new"
    have "count_list ?new q \<le> 1
        \<and> (q \<in> set ?new \<longrightarrow> recipe_cache self y = None \<and> recipe_cache self' y \<noteq> None)"
      if q: "q \<in> recipe_queries y" for q y
    proof (cases "y = recipe_id")
      case True
      with m [OF q] own have "q \<notin> set new" by auto
      then have "count_list new q = 0" by simp
      with True q compute(2) show ?thesis
        by (auto simp: recipe_queries_def self')
    next
      case False
      with q have "count_list ?new q = count_list new q"
        by (auto simp: recipe_queries_def)
      moreover from False q have "q \<in> set ?new \<longleftrightarrow> q \<in> set new"
        by (auto simp: recipe_queries_def)
      ultimately show ?thesis
        using p [OF q] m [OF q] False by (auto simp: self')
    qed
    then show ?thesis
      unfolding fresh_lookups_def
      by (intro exI [of _ ?new]) (simp add: new self')
  qed
qed

lemma fresh_lookups_execute:
  assumes "\<And>y. q \<notin> recipe_queries y"
  shows "fresh_lookups s (execute q s)"
  unfolding fresh_lookups_def
  using assms by (intro exI [of _ "[q]"]) auto

lemma calculate_product_cache_kept:
  assumes "recipe_cache self x = Some v"
  shows "recipe_cache (snd (calculate_product self product_id)) x = Some v"
proof -
  have "recipe_cache s x = Some v"
    if "calculate_recipe_cost (execute (SelectProduct product_id) self) r 0 = (res, s)"
    for r res s
    using calculate_recipe_cost_cache_kept
      [of "execute (SelectProduct product_id) self" x v r 0] that assms
    by simp
  then show ?thesis
    using assms
    by (simp add: calculate_product_def Let_def split: option.splits prod.splits sum.splits)
qed

lemma calculate_product_fresh_lookups:
  assumes "calculate_product self product_id = (Inr result, self')"
  shows "fresh_lookups self self'"
proof -
  let ?self1 = "execute (SelectProduct product_id) self"
  from assms obtain product where product: "products (conn self) product_id = Some product"
    by (auto simp: calculate_product_def Let_def split: option.splits)
  obtain r2 self2 where call: "calculate_recipe_cost ?self1 (prd_recipe_id product) 0 = (r2, self2)"
    by (cases "calculate_recipe_cost ?self1 (prd_recipe_id product) 0")
  from assms product call obtain v where v: "r2 = Inr v"
    and self': "self' = execute (SelectPackaging (prd_packaging_id product)) self2"
    by (auto simp: calculate_product_def Let_def
        split: option.splits prod.splits sum.splits if_splits)
  have a: "fresh_lookups self ?self1"
    by (rule fresh_lookups_execute) (simp add: recipe_queries_def)
  have b: "fresh_lookups ?self1 self2"
    using call v by (auto intro: calculate_recipe_cost_fresh_lookups)
  have c: "fresh_lookups self2 self'"
    unfolding self' by (rule fresh_lookups_execute) (simp add: recipe_queries_def)
  have kept: "recipe_cache self2 y = Some w" if "recipe_cache ?self1 y = Some w" for y w
    using cache_kept [OF call that] .
  have ab: "fresh_lookups self self2"
    by (rule fresh_lookups_trans [OF a b]) (simp, erule kept)
  show ?thesis
    by (rule fresh_lookups_trans [OF ab c])
      (use kept in simp, simp add: self')
qed

lemma perform_cache_kept:
  assumes "recipe_cache self x = Some v"
  shows "recipe_cache (snd (perform c self)) x = Some v"
proof (cases c)
  case (CalculateRecipeCost r d)
  then have "snd (perform c self) = snd (calculate_recipe_cost self r d)"
    by (simp split: prod.splits)
  with assms show ?thesis
    by (simp add: calculate_recipe_cost_cache_kept)
next
  case (CalculateProduct p)
  then have "snd (perform c self) = snd (calculate_product self p)"
    by (simp split: prod.splits)
  with assms show ?thesis
    by (simp add: calculate_product_cache_kept)
qed

lemma perform_fresh_lookups:
  assumes "perform c self = (True, self')"
  shows "fresh_lookups self self'"
proof (cases c)
  case (CalculateRecipeCost r d)
  with assms obtain v where "calculate_recipe_cost self r d = (Inr v, self')"
    by (cases "calculate_recipe_cost self r d"; cases "fst (calculate_recipe_cost self r d)")
      auto
  then show ?thesis by (rule calculate_recipe_cost_fresh_lookups)
next
  case (CalculateProduct p)
  with assms obtain v where "calculate_product self p = (Inr v, self')"
    by (cases "calculate_product self p"; cases "fst (calculate_product self p)") auto
  then show ?thesis by (rule calculate_product_fresh_lookups)
qed

lemma perform_all_cache_kept:
  "recipe_cache self x = Some v \<Longrightarrow> recipe_cache (snd (perform_all self calls)) x = Some v"
proof (induction calls arbitrary: self)
  case Nil
  then show ?case by simp
next
  case (Cons c calls)
  from Cons.IH [OF perform_cache_kept [OF Cons.prems, of c]] show ?case
    by (simp only: snd_perform_all_Cons)
qed

lemma perform_all_fresh_lookups:
  "perform_all self calls = (True, self') \<Longrightarrow> fresh_lookups self self'"
proof (induction calls arbitrary: self)
  case Nil
  then show ?case by (simp add: fresh_lookups_refl)
next
  case (Cons c calls)
  from Cons.prems obtain self1 where first: "perform c self = (True, self1)"
    and rest: "perform_all self1 calls = (True, self')"
    by (auto split: prod.splits)
  have k1: "recipe_cache self1 y = Some w" if "recipe_cache self y = Some w" for y w
    using perform_cache_kept [OF that, of c] first by simp
  have k2: "recipe_cache self' y = Some w" if "recipe_cache self1 y = Some w" for y w
    using perform_all_cache_kept [OF that, of calls] rest by simp
  show ?case
    by (rule fresh_lookups_trans [OF perform_fresh_lookups [OF first] Cons.IH [OF rest]])
      (erule k1, erule k2)
qed

text \<open>
  Claim C5, as stated, fails in its second half: a call that raises stores nothing in
  the cache for the recipes it was computing, so a later call looks them up again. On
  one calculator for \<open>chain_db\<close>: \<open>calculate_recipe_cost(1)\<close> raises (the chain is
  five levels deep); \<open>calculate_recipe_cost(4)\<close> returns and caches recipes 4 and
  5; now \<open>calculate_recipe_cost(1)\<close> returns, and returns the same again; and the
  recipe row 1 has been selected twice on this object.
\<close>

theorem repeated_lookup_counterexample:
  "fst (calculate_recipe_cost (init_calculator chain_db) 1 0) = Inl (RecursionError 5)
   \<and> map_sum id fst (fst (calculate_recipe_cost
        (after_calls chain_db [CalculateRecipeCost 1 0, CalculateRecipeCost 4 0]) 1 0))
      = Inr (11111 / 100000)
   \<and> fst (calculate_recipe_cost
        (after_calls chain_db
          [CalculateRecipeCost 1 0, CalculateRecipeCost 4 0, CalculateRecipeCost 1 0]) 1 0)
      = fst (calculate_recipe_cost
        (after_calls chain_db [CalculateRecipeCost 1 0, CalculateRecipeCost 4 0]) 1 0)
   \<and> count_list (executed (after_calls chain_db
          [CalculateRecipeCost 1 0, CalculateRecipeCost 4 0,
           CalculateRecipeCost 1 0, CalculateRecipeCost 1 0])) (SelectRecipe 1) = 2"
  by (simp add: after_calls_def chain_db_def recipe_result_of_def eval_defs)

text \<open>
  Claim C5, amended. When a call for a recipe returns, a second call for it on the same
  object (with a depth that passes the guard) returns the same pair and leaves the
  object as it is, so it executes no statement. A call that returns looks every
  recipe up at most once: for each identifier it adds at most one \<open>SELECT\<close> of the
  recipe row and at most one of its items to the statements executed before. And on a
  calculator all of whose earlier calls have returned, each recipe has been looked up
  at most once since the object was made.
\<close>

theorem resolve_twice:
  assumes "calculate_recipe_cost self recipe_id depth1 = (Inr result, self1)"
    and "\<not> 3 < depth2"
  shows "calculate_recipe_cost self1 recipe_id depth2 = (Inr result, self1)
    \<and> (\<forall>y. count_list (executed self1) (SelectRecipe y)
              \<le> count_list (executed self) (SelectRecipe y) + 1
          \<and> count_list (executed self1) (SelectRecipeItems y)
              \<le> count_list (executed self) (SelectRecipeItems y) + 1)
    \<and> (\<forall>db calls. perform_all (init_calculator db) calls = (True, self) \<longrightarrow>
          (\<forall>y. count_list (executed self1) (SelectRecipe y) \<le> 1
              \<and> count_list (executed self1) (SelectRecipeItems y) \<le> 1))"
proof (intro conjI allI impI)
  from result_is_cached [OF assms(1)] assms(2)
  show "calculate_recipe_cost self1 recipe_id depth2 = (Inr result, self1)"
    by (simp add: calculate_recipe_cost_cached)
  note step = calculate_recipe_cost_fresh_lookups [OF assms(1)]
  from step obtain new where new: "executed self1 = executed self @ new"
    and p: "\<And>q y. q \<in> recipe_queries y \<Longrightarrow> count_list new q \<le> 1"
    unfolding fresh_lookups_def by blast
  show "count_list (executed self1) (SelectRecipe y)
              \<le> count_list (executed self) (SelectRecipe y) + 1" for y
    using p [of "SelectRecipe y" y] by (simp add: new recipe_queries_def)
  show "count_list (executed self1) (SelectRecipeItems y)
              \<le> count_list (executed self) (SelectRecipeItems y) + 1" for y
    using p [of "SelectRecipeItems y" y] by (simp add: new recipe_queries_def)
  fix db calls y
  assume history: "perform_all (init_calculator db) calls = (True, self)"
  have k1: "recipe_cache self z = Some w" if "recipe_cache (init_calculator db) z = Some w" for z w
    using that by (simp add: init_calculator_def)
  have k2: "recipe_cache self1 z = Some w" if "recipe_cache self z = Some w" for z w
    using cache_kept [OF assms(1) that] .
  have "fresh_lookups (init_calculator db) self1"
    by (rule fresh_lookups_trans [OF perform_all_fresh_lookups [OF history] step])
      (erule k1, erule k2)
  then obtain all where all: "executed self1 = executed (init_calculator db) @ all"
    and q: "\<And>q y. q \<in> recipe_queries y \<Longrightarrow> count_list all q \<le> 1"
    unfolding fresh_lookups_def by blast
  show "count_list (executed self1) (SelectRecipe y) \<le> 1"
    using q [of "SelectRecipe y" y] by (simp add: all init_calculator_def recipe_queries_def)
  show "count_list (executed self1) (SelectRecipeItems y) \<le> 1"
    using q [of "SelectRecipeItems y" y] by (simp add: all init_calculator_def recipe_queries_def)
qed

theorem resolve_twice_witness:
  "calculate_recipe_cost (init_calculator seed_db) 2 0
     = (Inr demi_glace_result, demi_glace_calculator)
   \<and> perform_all (init_calculator seed_db) [] = (True, init_calculator seed_db)
   \<and> calculate_recipe_cost demi_glace_calculator 2 0
       = (Inr demi_glace_result, demi_glace_calculator)
   \<and> count_list (executed demi_glace_calculator) (SelectRecipe 1) \<le> 1
   \<and> count_list (executed demi_glace_calculator) (SelectRecipe 2) \<le> 1"
proof -
  have history: "perform_all (init_calculator seed_db) [] = (True, init_calculator seed_db)"
    by simp
  have depth: "\<not> 3 < (0 :: int)"
    by simp
  from resolve_twice [OF demi_glace_call depth] history
  have "calculate_recipe_cost demi_glace_calculator 2 0
       = (Inr demi_glace_result, demi_glace_calculator)"
    and "\<forall>y. count_list (executed demi_glace_calculator) (SelectRecipe y) \<le> 1
              \<and> count_list (executed demi_glace_calculator) (SelectRecipeItems y) \<le> 1"
    by blast+
  with demi_glace_call history show ?thesis by simp
qed

subsection \<open>The memoised results are rollups\<close>

lemma rollup_items_ingredient:
  assumes "truthy_id (item_ingredient_id item) = Some i"
  shows "rollup_items db sub_cost (item # items) (tmc, ings, subs) =
    (case ingredients db i of
       None \<Rightarrow> None
     | Some ing \<Rightarrow>
         rollup_items db sub_cost items
           (tmc + item_amount item * ing_price_per_unit ing,
            ings @ [\<lparr>il_name = ing_name ing, il_amount = item_amount item,
                      il_unit = ing_unit ing,
                      il_price_per_unit = ing_price_per_unit ing,
                      il_cost = item_amount item * ing_price_per_unit ing\<rparr>],
            subs))"
  using assms by simp

lemma rollup_items_sub_recipe:
  assumes "truthy_id (item_ingredient_id item) = None"
    and "truthy_id (item_sub_recipe_id item) = Some s"
  shows "rollup_items db sub_cost (item # items) (tmc, ings, subs) =
    (case sub_cost s of
       None \<Rightarrow> None
     | Some (c, d) \<Rightarrow>
         rollup_items db sub_cost items
           (tmc + item_amount item * c, ings,
            subs @ [\<lparr>sl_recipe_id = s, sl_name = d_name d,
                      sl_amount_l = item_amount item,
                      sl_cost_per_liter = c,
                      sl_cost = item_amount item * c\<rparr>]))"
  using assms by simp

lemma rollup_items_neither:
  assumes "truthy_id (item_ingredient_id item) = None"
    and "truthy_id (item_sub_recipe_id item) = None"
  shows "rollup_items db sub_cost (item # items) acc = rollup_items db sub_cost items acc"
  using assms by (cases acc) simp

declare rollup_items.simps(2) [simp del]

lemma rollup_items_mono:
  assumes "\<And>s v. sub_cost s = Some v \<Longrightarrow> sub_cost' s = Some v"
    and "rollup_items db sub_cost items acc = Some acc'"
  shows "rollup_items db sub_cost' items acc = Some acc'"
  using assms(2)
proof (induction items arbitrary: acc)
  case Nil
  then show ?case by simp
next
  case (Cons item items)
  obtain tmc ings subs where acc: "acc = (tmc, ings, subs)"
    by (cases acc)
  show ?case
  proof (cases rule: item_cases [where item = item])
    case (ingredient i)
    from Cons.prems show ?thesis
      unfolding acc rollup_items_ingredient [OF ingredient]
      by (auto simp: Cons.IH split: option.splits)
  next
    case (sub_recipe s)
    from Cons.prems obtain c d where s: "sub_cost s = Some (c, d)"
      unfolding acc rollup_items_sub_recipe [OF sub_recipe]
      by (auto split: option.splits)
    from assms(1) [OF s] Cons.prems show ?thesis
      unfolding acc rollup_items_sub_recipe [OF sub_recipe] s
      by (simp add: Cons.IH)
  next
    case neither
    from Cons.prems show ?thesis
      unfolding rollup_items_neither [OF neither] by (rule Cons.IH)
  qed
qed

lemma rollup_Suc: "rollup db n r = Some v \<Longrightarrow> rollup db (Suc n) r = Some v"
proof (induction n arbitrary: r v)
  case 0
  then show ?case by simp
next
  case (Suc n)
  from Suc.prems obtain recipe acc' where recipe: "recipes db r = Some recipe"
    and items: "rollup_items db (\<lambda>s. rollup db n s) (recipe_items db r) (0, [], []) = Some acc'"
    and v: "v = recipe_result_of recipe acc'"
    by (auto split: option.splits)
  have "rollup_items db (\<lambda>s. rollup db (Suc n) s) (recipe_items db r) (0, [], []) = Some acc'"
    by (rule rollup_items_mono [OF _ items]) (rule Suc.IH)
  with recipe v show ?case
    by (simp del: rollup.simps add: rollup.simps(2) [of db "Suc n"])
qed

lemma rollup_mono: "rollup db n r = Some v \<Longrightarrow> n \<le> m \<Longrightarrow> rollup db m r = Some v"
  by (induction m) (auto simp: le_Suc_eq dest: rollup_Suc simp del: rollup.simps)

lemma rollup_unique:
  assumes "rollup db n r = Some v" and "rollup db m r = Some w"
  shows "v = w"
  using rollup_mono [OF assms(1), of "max n m"] rollup_mono [OF assms(2), of "max n m"]
  by simp

lemma process_items_sound:
  assumes resolve: "\<And>s sub res s'. conn s = db \<Longrightarrow> cache_sound db (recipe_cache s) \<Longrightarrow>
      resolve s sub = (res, s') \<Longrightarrow>
      cache_sound db (recipe_cache s') \<and> (\<forall>v. res = Inr v \<longrightarrow> (\<exists>n. rollup db n sub = Some v))"
    and conn: "\<And>s sub. conn (snd (resolve s sub)) = conn s"
    and "conn self = db"
    and "cache_sound db (recipe_cache self)"
    and "process_items resolve items acc self = (res, self')"
  shows "cache_sound db (recipe_cache self')
    \<and> (\<forall>acc'. res = Inr acc' \<longrightarrow>
          (\<exists>n. rollup_items db (\<lambda>s. rollup db n s) items acc = Some acc'))"
  using assms(3-)
proof (induction items arbitrary: acc self)
  case Nil
  then show ?case by auto
next
  case (Cons item items)
  obtain tmc ings subs where acc: "acc = (tmc, ings, subs)"
    by (cases acc)
  show ?case
  proof (cases rule: item_cases [where item = item])
    case (ingredient i)
    show ?thesis
    proof (cases "ingredients db i")
      case None
      with Cons.prems show ?thesis
        unfolding acc process_items_ingredient [OF ingredient]
        by auto
    next
      case (Some ing)
      with Cons.prems(1,3) obtain acc1 where
        rest: "process_items resolve items acc1 (execute (SelectIngredient i) self) = (res, self')"
        and step: "\<And>f. rollup_items db f (item # items) acc = rollup_items db f items acc1"
        unfolding acc process_items_ingredient [OF ingredient]
          rollup_items_ingredient [OF ingredient]
        by auto
      from Cons.IH [OF _ _ rest] Cons.prems(1,2) show ?thesis
        by (simp add: step)
    qed
  next
    case (sub_recipe s)
    obtain r1 self1 where r: "resolve self s = (r1, self1)"
      by (cases "resolve self s")
    from resolve [OF Cons.prems(1,2) r]
    have sound1: "cache_sound db (recipe_cache self1)"
      and val: "\<And>v. r1 = Inr v \<Longrightarrow> \<exists>n. rollup db n s = Some v"
      by auto
    have db1: "conn self1 = db"
      using conn [of self s] r Cons.prems(1) by simp
    show ?thesis
    proof (cases r1)
      case (Inl e)
      with Cons.prems(3) r sound1 show ?thesis
        unfolding acc process_items_sub_recipe [OF sub_recipe]
        by auto
    next
      case (Inr v)
      obtain c d where v: "v = (c, d)" by (cases v)
      let ?acc1 = "(tmc + item_amount item * c, ings,
            subs @ [\<lparr>sl_recipe_id = s, sl_name = d_name d,
                      sl_amount_l = item_amount item,
                      sl_cost_per_liter = c,
                      sl_cost = item_amount item * c\<rparr>])"
      from Cons.prems(3) r Inr v have
        rest: "process_items resolve items ?acc1 self1 = (res, self')"
        unfolding acc process_items_sub_recipe [OF sub_recipe]
        by simp
      from Cons.IH [OF db1 sound1 rest]
      have sound': "cache_sound db (recipe_cache self')"
        and tail: "\<And>acc'. res = Inr acc' \<Longrightarrow>
          \<exists>n. rollup_items db (\<lambda>s. rollup db n s) items ?acc1 = Some acc'"
        by auto
      have "\<exists>n. rollup_items db (\<lambda>s. rollup db n s) (item # items) acc = Some acc'"
        if "res = Inr acc'" for acc'
      proof -
        from val [OF Inr] v obtain n1 where n1: "rollup db n1 s = Some (c, d)"
          by auto
        from tail [OF that] obtain n2 where
          n2: "rollup_items db (\<lambda>s. rollup db n2 s) items ?acc1 = Some acc'"
          by auto
        let ?n = "max n1 n2"
        have s: "rollup db ?n s = Some (c, d)"
          by (rule rollup_mono [OF n1]) simp
        have "rollup_items db (\<lambda>s. rollup db ?n s) items ?acc1 = Some acc'"
          by (rule rollup_items_mono [OF _ n2]) (erule rollup_mono, simp)
        with s have "rollup_items db (\<lambda>s. rollup db ?n s) (item # items) acc = Some acc'"
          unfolding acc rollup_items_sub_recipe [OF sub_recipe] by simp
        then show ?thesis ..
      qed
      with sound' show ?thesis by blast
    qed
  next
    case neither
    from Cons.prems(3) have "process_items resolve items acc self = (res, self')"
      unfolding process_items_neither [OF neither] .
    from Cons.IH [OF Cons.prems(1,2) this] show ?thesis
      by (simp add: rollup_items_neither [OF neither])
  qed
qed

lemma calculate_recipe_cost_sound:
  "conn self = db \<Longrightarrow> cache_sound db (recipe_cache self) \<Longrightarrow>
   calculate_recipe_cost self recipe_id depth = (res, self') \<Longrightarrow>
   cache_sound db (recipe_cache self')
   \<and> (\<forall>v. res = Inr v \<longrightarrow> (\<exists>n. rollup db n recipe_id = Some v))"
proof (induction self recipe_id depth arbitrary: res self' rule: calculate_recipe_cost.induct)
  case (1 self recipe_id depth)
  note db = \<open>conn self = db\<close>
  note sound = \<open>cache_sound db (recipe_cache self)\<close>
  note call = \<open>calculate_recipe_cost self recipe_id depth = (res, self')\<close>
  show ?case
  proof (cases rule: calculate_recipe_cost_cases
      [where depth = depth and self = self and recipe_id = recipe_id])
    case guard
    with call sound show ?thesis by (auto simp: calculate_recipe_cost_guard)
  next
    case (cached c)
    with call sound show ?thesis
      by (auto simp: calculate_recipe_cost_cached cache_sound_def)
  next
    case not_found
    with call sound show ?thesis by (auto simp: calculate_recipe_cost_not_found)
  next
    case (compute recipe)
    let ?resolve = "\<lambda>s sub. calculate_recipe_cost s sub (depth + 1)"
    let ?self2 = "execute (SelectRecipeItems recipe_id) (execute (SelectRecipe recipe_id) self)"
    obtain r3 self3 where
      loop: "process_items ?resolve (recipe_items (conn self) recipe_id) (0, [], []) ?self2
               = (r3, self3)"
      by (cases "process_items ?resolve (recipe_items (conn self) recipe_id) (0, [], []) ?self2")
    have rec: "recipes (conn (execute (SelectRecipe recipe_id) self)) recipe_id = Some recipe"
      using compute(3) by simp
    note ih = 1(1) [OF compute(1,2) refl rec refl refl]
    have "cache_sound db (recipe_cache self3)
      \<and> (\<forall>acc'. r3 = Inr acc' \<longrightarrow>
          (\<exists>n. rollup_items db (\<lambda>s. rollup db n s) (recipe_items (conn self) recipe_id)
                 (0, [], []) = Some acc'))"
    proof (rule process_items_sound [where resolve = ?resolve and db = db, OF _ _ _ _ loop])
      fix s sub res s'
      assume "conn s = db" "cache_sound db (recipe_cache s)" "?resolve s sub = (res, s')"
      then show "cache_sound db (recipe_cache s')
          \<and> (\<forall>v. res = Inr v \<longrightarrow> (\<exists>n. rollup db n sub = Some v))"
        by (rule ih)
    qed (use db sound in \<open>simp_all add: calculate_recipe_cost_conn\<close>)
    then have sound3: "cache_sound db (recipe_cache self3)"
      and val: "\<And>acc'. r3 = Inr acc' \<Longrightarrow>
          \<exists>n. rollup_items db (\<lambda>s. rollup db n s) (recipe_items db recipe_id)
                 (0, [], []) = Some acc'"
      using db by auto
    show ?thesis
    proof (cases r3)
      case (Inl e)
      with call loop sound3 show ?thesis
        unfolding calculate_recipe_cost_compute [OF compute] by auto
    next
      case (Inr acc')
      from val [OF Inr] obtain n where
        "rollup_items db (\<lambda>s. rollup db n s) (recipe_items db recipe_id) (0, [], []) = Some acc'"
        by auto
      with compute(3) db have "rollup db (Suc n) recipe_id = Some (recipe_result_of recipe acc')"
        by simp
      then have ex: "\<exists>n. rollup db n recipe_id = Some (recipe_result_of recipe acc')" ..
      from call loop Inr have res: "res = Inr (recipe_result_of recipe acc')"
        and self': "self' = self3\<lparr>recipe_cache :=
           (recipe_cache self3)(recipe_id \<mapsto> recipe_result_of recipe acc')\<rparr>"
        unfolding calculate_recipe_cost_compute [OF compute] by auto
      from sound3 ex show ?thesis
        unfolding res self' by (auto simp: cache_sound_def)
    qed
  qed
qed

lemma cache_sound_empty: "cache_sound db Map.empty"
  by (simp add: cache_sound_def)

lemma process_items_lines_cached:
  assumes cached: "\<And>s sub v s'. resolve s sub = (Inr v, s') \<Longrightarrow> recipe_cache s' sub = Some v"
    and kept: "\<And>s sub y v. recipe_cache s y = Some v \<Longrightarrow>
      recipe_cache (snd (resolve s sub)) y = Some v"
    and "process_items resolve items (tmc, ings, subs) self = (Inr (tmc', ings', subs'), self')"
    and "\<forall>l\<in>set subs. \<exists>d. recipe_cache self (sl_recipe_id l) = Some (sl_cost_per_liter l, d)"
  shows "\<forall>l\<in>set subs'. \<exists>d. recipe_cache self' (sl_recipe_id l) = Some (sl_cost_per_liter l, d)"
  using assms(3-)
proof (induction items arbitrary: tmc ings subs self)
  case Nil
  then show ?case by simp
next
  case (Cons item items)
  show ?case
  proof (cases rule: item_cases [where item = item])
    case (ingredient i)
    from Cons.prems(1) obtain t1 i1 where
      rest: "process_items resolve items (t1, i1, subs) (execute (SelectIngredient i) self)
               = (Inr (tmc', ings', subs'), self')"
      unfolding process_items_ingredient [OF ingredient]
      by (auto split: option.splits)
    from Cons.IH [OF rest] Cons.prems(2) show ?thesis
      by simp
  next
    case (sub_recipe s)
    from Cons.prems(1) obtain c d self1 where r: "resolve self s = (Inr (c, d), self1)"
      and rest: "process_items resolve items
           (tmc + item_amount item * c, ings,
            subs @ [\<lparr>sl_recipe_id = s, sl_name = d_name d,
                      sl_amount_l = item_amount item,
                      sl_cost_per_liter = c,
                      sl_cost = item_amount item * c\<rparr>])
           self1 = (Inr (tmc', ings', subs'), self')"
      unfolding process_items_sub_recipe [OF sub_recipe]
      by (auto split: prod.splits sum.splits)
    have old: "\<exists>d. recipe_cache self1 (sl_recipe_id l) = Some (sl_cost_per_liter l, d)"
      if "l \<in> set subs" for l
    proof -
      from Cons.prems(2) that obtain d where
        "recipe_cache self (sl_recipe_id l) = Some (sl_cost_per_liter l, d)"
        by auto
      from kept [OF this, of s] r show ?thesis by simp
    qed
    from cached [OF r] old show ?thesis
      by (intro Cons.IH [OF rest]) auto
  next
    case neither
    from Cons.prems(1) have
      "process_items resolve items (tmc, ings, subs) self = (Inr (tmc', ings', subs'), self')"
      unfolding process_items_neither [OF neither] .
    from Cons.IH [OF this Cons.prems(2)] show ?thesis .
  qed
qed

subsection \<open>Compositionality\<close>

text \<open>
  Claim C4. Let a call for a parent recipe compute and return a result. Its sub-recipe
  lines are the sub-recipe items of the parent, in order. For each line, resolving
  that sub-recipe by itself (depth 0) on the same object returns the very
  cost per liter the parent used; and if the parent was resolved with an empty cache,
  any call on a fresh calculator for that sub-recipe that returns, returns that same
  pair. The parent's material cost is the sum over these lines of amount times that
  cost per liter plus the sum over its ingredient lines of amount times price; total
  cost adds the parent's energy cost, and the cost per liter is \<open>calc_cost_per_liter\<close>
  of these.
\<close>

theorem compositionality:
  assumes "calculate_recipe_cost self parent depth = (Inr (cost_per_liter, details), self')"
    and "recipe_cache self parent = None"
  shows "\<exists>recipe. recipes (conn self) parent = Some recipe
     \<and> map (\<lambda>l. (sl_recipe_id l, sl_amount_l l)) (d_sub_recipes details)
         = sub_recipe_items (recipe_items (conn self) parent)
     \<and> (\<forall>l\<in>set (d_sub_recipes details). \<exists>sub_details.
           calculate_recipe_cost self' (sl_recipe_id l) 0
             = (Inr (sl_cost_per_liter l, sub_details), self')
           \<and> (recipe_cache self = Map.empty \<longrightarrow>
                (\<forall>depth' c d st.
                   calculate_recipe_cost (init_calculator (conn self)) (sl_recipe_id l) depth'
                     = (Inr (c, d), st) \<longrightarrow>
                   (c, d) = (sl_cost_per_liter l, sub_details))))
     \<and> map (\<lambda>l. (il_amount l, il_price_per_unit l)) (d_ingredients details)
         = ingredient_items (conn self) (recipe_items (conn self) parent)
     \<and> d_total_material_cost details =
           (\<Sum>l\<leftarrow>d_sub_recipes details. sl_amount_l l * sl_cost_per_liter l)
         + (\<Sum>l\<leftarrow>d_ingredients details. il_amount l * il_price_per_unit l)
     \<and> d_total_cost details = d_total_material_cost details + rcp_energy_cost_chf recipe
     \<and> cost_per_liter =
         calc_cost_per_liter (d_total_material_cost details) (rcp_energy_cost_chf recipe)
           (rcp_batch_size_l recipe) (rcp_yield_pct recipe)"
proof (cases rule: calculate_recipe_cost_cases
    [where depth = depth and self = self and recipe_id = parent])
  case guard
  with assms show ?thesis by (simp add: calculate_recipe_cost_guard)
next
  case (cached v)
  with assms show ?thesis by simp
next
  case not_found
  with assms show ?thesis by (simp add: calculate_recipe_cost_not_found)
next
  case (compute recipe)
  let ?db = "conn self"
  let ?resolve = "\<lambda>s sub. calculate_recipe_cost s sub (depth + 1)"
  let ?self2 = "execute (SelectRecipeItems parent) (execute (SelectRecipe parent) self)"
  from assms(1) obtain tmc ings subs self3 where
    loop: "process_items ?resolve (recipe_items ?db parent) (0, [], []) ?self2
            = (Inr (tmc, ings, subs), self3)"
    and res: "(cost_per_liter, details) = recipe_result_of recipe (tmc, ings, subs)"
    and self': "self' = self3\<lparr>recipe_cache :=
           (recipe_cache self3)(parent \<mapsto> recipe_result_of recipe (tmc, ings, subs))\<rparr>"
    unfolding calculate_recipe_cost_compute [OF compute]
    by (auto split: prod.splits sum.splits)
  from res have d: "details = snd (recipe_result_of recipe (tmc, ings, subs))"
    and c: "cost_per_liter = fst (recipe_result_of recipe (tmc, ings, subs))"
    by (metis fst_conv snd_conv)+
  have fields: "d_sub_recipes details = subs" "d_ingredients details = ings"
    "d_total_material_cost details = tmc"
    "d_total_cost details = tmc + rcp_energy_cost_chf recipe"
    "cost_per_liter = calc_cost_per_liter tmc (rcp_energy_cost_chf recipe)
           (rcp_batch_size_l recipe) (rcp_yield_pct recipe)"
    by (simp_all add: d c recipe_result_of_def Let_def)
  from process_items_lines [OF loop] calculate_recipe_cost_conn
  have lines: "tmc = (\<Sum>l\<leftarrow>ings. il_amount l * il_price_per_unit l)
                   + (\<Sum>l\<leftarrow>subs. sl_amount_l l * sl_cost_per_liter l)"
    "map (\<lambda>l. (il_amount l, il_price_per_unit l)) ings
         = ingredient_items ?db (recipe_items ?db parent)"
    "map (\<lambda>l. (sl_recipe_id l, sl_amount_l l)) subs
         = sub_recipe_items (recipe_items ?db parent)"
    by auto
  have own: "recipe_cache self3 parent = None"
    by (rule not_cached_by_own_items [OF compute loop])
  have cached3: "\<forall>l\<in>set subs. \<exists>d. recipe_cache self3 (sl_recipe_id l) = Some (sl_cost_per_liter l, d)"
  proof (rule process_items_lines_cached [where resolve = ?resolve, OF _ _ loop])
    fix s sub v s'
    assume "?resolve s sub = (Inr v, s')"
    then show "recipe_cache s' sub = Some v" by (rule result_is_cached)
  qed (simp_all add: calculate_recipe_cost_cache_kept)
  have sub: "\<exists>sub_details.
           calculate_recipe_cost self' (sl_recipe_id l) 0
             = (Inr (sl_cost_per_liter l, sub_details), self')
           \<and> (recipe_cache self = Map.empty \<longrightarrow>
                (\<forall>depth' c d st.
                   calculate_recipe_cost (init_calculator ?db) (sl_recipe_id l) depth'
                     = (Inr (c, d), st) \<longrightarrow>
                   (c, d) = (sl_cost_per_liter l, sub_details)))"
    if l: "l \<in> set subs" for l
  proof -
    from cached3 l obtain sd where
      sd3: "recipe_cache self3 (sl_recipe_id l) = Some (sl_cost_per_liter l, sd)"
      by auto
    with own have "sl_recipe_id l \<noteq> parent" by auto
    with sd3 have sd: "recipe_cache self' (sl_recipe_id l) = Some (sl_cost_per_liter l, sd)"
      by (simp add: self')
    then have again: "calculate_recipe_cost self' (sl_recipe_id l) 0
             = (Inr (sl_cost_per_liter l, sd), self')"
      by (simp add: calculate_recipe_cost_cached)
    have "(c, d) = (sl_cost_per_liter l, sd)"
      if empty: "recipe_cache self = Map.empty"
        and fresh: "calculate_recipe_cost (init_calculator ?db) (sl_recipe_id l) depth'
                     = (Inr (c, d), st)"
      for depth' c d st
    proof -
      have "cache_sound ?db (recipe_cache self)"
        by (simp add: empty cache_sound_empty)
      from calculate_recipe_cost_sound [OF refl this assms(1)]
      have "cache_sound ?db (recipe_cache self')" by simp
      with sd obtain n where n: "rollup ?db n (sl_recipe_id l) = Some (sl_cost_per_liter l, sd)"
        unfolding cache_sound_def by blast
      have "conn (init_calculator ?db) = ?db"
        "cache_sound ?db (recipe_cache (init_calculator ?db))"
        by (simp_all add: init_calculator_def cache_sound_empty)
      from calculate_recipe_cost_sound [OF this fresh]
      obtain m where "rollup ?db m (sl_recipe_id l) = Some (c, d)"
        by auto
      then show ?thesis using n by (rule rollup_unique)
    qed
    with again show ?thesis by blast
  qed
  show ?thesis
    apply (rule exI [of _ recipe])
    using compute(3) lines sub
    apply (simp add: fields)
    done
qed

theorem compositionality_witness:
  "calculate_recipe_cost (init_calculator seed_db) 2 0
     = (Inr demi_glace_result, demi_glace_calculator)
   \<and> recipe_cache (init_calculator seed_db) 2 = None
   \<and> calculate_recipe_cost demi_glace_calculator 1 0
       = (Inr grundfond_result, demi_glace_calculator)
   \<and> d_total_material_cost (snd demi_glace_result)
       = 50 * fst grundfond_result + (5 * (9 / 2) + (1 / 2) * 45)"
proof -
  have call: "calculate_recipe_cost (init_calculator seed_db) 2 0
     = (Inr (fst demi_glace_result, snd demi_glace_result), demi_glace_calculator)"
    by (simp add: demi_glace_call)
  have uncached: "recipe_cache (init_calculator seed_db) 2 = None"
    by (simp add: init_calculator_def)
  have empty: "recipe_cache (init_calculator seed_db) = Map.empty"
    by (simp add: init_calculator_def)
  have db: "conn (init_calculator seed_db) = seed_db"
    by (simp add: init_calculator_def)
  have fresh: "calculate_recipe_cost (init_calculator seed_db) 1 0
      = (Inr (fst grundfond_result, snd grundfond_result), warm_calculator)"
    by (simp add: grundfond_call)
  let ?line = "\<lparr>sl_recipe_id = 1, sl_name = ''Grundfond Kalb'', sl_amount_l = 50,
           sl_cost_per_liter = 3979 / 600, sl_cost = 3979 / 12\<rparr>"
  have subs: "d_sub_recipes (snd demi_glace_result) = [?line]"
    by (simp add: demi_glace_result_def)
  from compositionality [OF call uncached]
  have lines: "\<forall>l\<in>set (d_sub_recipes (snd demi_glace_result)). \<exists>sub_details.
           calculate_recipe_cost demi_glace_calculator (sl_recipe_id l) 0
             = (Inr (sl_cost_per_liter l, sub_details), demi_glace_calculator)
           \<and> (recipe_cache (init_calculator seed_db) = Map.empty \<longrightarrow>
                (\<forall>depth' c d st.
                   calculate_recipe_cost (init_calculator (conn (init_calculator seed_db)))
                       (sl_recipe_id l) depth'
                     = (Inr (c, d), st) \<longrightarrow>
                   (c, d) = (sl_cost_per_liter l, sub_details)))"
    and sum: "d_total_material_cost (snd demi_glace_result) =
           (\<Sum>l\<leftarrow>d_sub_recipes (snd demi_glace_result). sl_amount_l l * sl_cost_per_liter l)
         + (\<Sum>l\<leftarrow>d_ingredients (snd demi_glace_result). il_amount l * il_price_per_unit l)"
    by blast+
  from lines have "\<exists>sub_details.
           calculate_recipe_cost demi_glace_calculator (sl_recipe_id ?line) 0
             = (Inr (sl_cost_per_liter ?line, sub_details), demi_glace_calculator)
           \<and> (recipe_cache (init_calculator seed_db) = Map.empty \<longrightarrow>
                (\<forall>depth' c d st.
                   calculate_recipe_cost (init_calculator (conn (init_calculator seed_db)))
                       (sl_recipe_id ?line) depth'
                     = (Inr (c, d), st) \<longrightarrow>
                   (c, d) = (sl_cost_per_liter ?line, sub_details)))"
    unfolding subs by (rule bspec) simp
  then obtain sub_details where
    again: "calculate_recipe_cost demi_glace_calculator (sl_recipe_id ?line) 0
             = (Inr (sl_cost_per_liter ?line, sub_details), demi_glace_calculator)"
    and all: "recipe_cache (init_calculator seed_db) = Map.empty \<longrightarrow>
                (\<forall>depth' c d st.
                   calculate_recipe_cost (init_calculator (conn (init_calculator seed_db)))
                       (sl_recipe_id ?line) depth'
                     = (Inr (c, d), st) \<longrightarrow>
                   (c, d) = (sl_cost_per_liter ?line, sub_details))"
    by blast
  from all empty have same: "calculate_recipe_cost (init_calculator seed_db) 1 depth'
        = (Inr (c, d), st) \<Longrightarrow> (c, d) = (sl_cost_per_liter ?line, sub_details)"
    for depth' c d st
    unfolding db by (simp del: prod.inject) blast
  from same [OF fresh] again have
    "calculate_recipe_cost demi_glace_calculator 1 0
       = (Inr grundfond_result, demi_glace_calculator)"
    by (simp del: prod.inject)
  moreover from sum have "d_total_material_cost (snd demi_glace_result)
       = 50 * fst grundfond_result + (5 * (9 / 2) + (1 / 2) * 45)"
    by (simp add: demi_glace_result_def grundfond_result_def)
  ultimately show ?thesis
    using demi_glace_call uncached by simp
qed

text \<open>
  Why the fresh calculator enters the statement only conditionally: in \<open>shared_db\<close>
  recipe 1 resolves on a fresh calculator (to 0.122211 per liter), because recipe 2 is
  cached when it is met again at depth 3, while recipe 5 by itself on a fresh
  calculator needs recipe 4 at depth 4 and raises.
\<close>

lemma shared_sub_recipe_example:
  "map_sum id fst (fst (calculate_recipe_cost (init_calculator shared_db) 1 0))
     = Inr (122211 / 1000000)
   \<and> fst (calculate_recipe_cost (init_calculator shared_db) 5 0) = Inl (RecursionError 4)"
  by (simp add: shared_db_def recipe_result_of_def eval_defs)

end
